theory Spec2Isabelle
  imports Main "HOL-Library.Word"
begin

unbundle bit_operations_syntax

section \<open>Machine types, faults and sequencing\<close>

text \<open>
  The rule in \<^verbatim>\<open>pad_fusion.cc\<close> works on \<^verbatim>\<open>int64_t\<close> pad values, a \<^verbatim>\<open>uint32_t\<close>
  pad count and loop indices, raw \<^verbatim>\<open>uint8_t\<close> bytes and a \<^verbatim>\<open>float\<close> attribute. Integers are
  words of their width (addition wraps, as the compiled two's complement addition does);
  a float is its IEEE-754 bit pattern, of which only the comparison with \<^verbatim>\<open>0.0\<close> is used.
\<close>

type_synonym int64 = "64 word"
type_synonym uint32 = "32 word"
type_synonym uint8 = "8 word"
type_synonym float32 = "32 word"

text \<open>
  Every way the C++ can leave its defined path is a value: \<^verbatim>\<open>std::unordered_map::at\<close> on a
  missing key throws, dereferencing a null pointer or an end iterator and indexing a vector
  or repeated field out of range are undefined, \<^verbatim>\<open>ORT_ENFORCE\<close> throws.
\<close>

datatype fault =
    OutOfRangeException
  | NullDereference
  | IndexOutOfBounds
  | NoOutputEdge
  | EnforceFailed

definition bindF :: "fault + 'a \<Rightarrow> ('a \<Rightarrow> fault + 'b) \<Rightarrow> fault + 'b" where
  "bindF m k = (case m of Inl e \<Rightarrow> Inl e | Inr x \<Rightarrow> k x)"

text \<open>\<^verbatim>\<open>v[i]\<close> on a \<^verbatim>\<open>std::vector\<close>, and \<^verbatim>\<open>Get(i)\<close> / \<^verbatim>\<open>Set(i, x)\<close> on a repeated field.\<close>

definition vector_at :: "'a list \<Rightarrow> nat \<Rightarrow> fault + 'a" where
  "vector_at xs i = (if i < length xs then Inr (xs ! i) else Inl IndexOutOfBounds)"

definition repeated_Get :: "int64 list \<Rightarrow> uint32 \<Rightarrow> fault + int64" where
  "repeated_Get xs i = vector_at xs (unat i)"

definition repeated_Set :: "int64 list \<Rightarrow> uint32 \<Rightarrow> int64 \<Rightarrow> fault + int64 list" where
  "repeated_Set xs i v = (if unat i < length xs then Inr (xs[unat i := v]) else Inl IndexOutOfBounds)"

text \<open>\<^verbatim>\<open>*p\<close> on a pointer that may be null.\<close>

definition deref :: "'a option \<Rightarrow> fault + 'a" where
  "deref p = (case p of None \<Rightarrow> Inl NullDereference | Some x \<Rightarrow> Inr x)"

text \<open>\<^verbatim>\<open>m.at(key)\<close> on the attribute map.\<close>

definition map_at :: "('k \<rightharpoonup> 'v) \<Rightarrow> 'k \<Rightarrow> fault + 'v" where
  "map_at m k = (case m k of None \<Rightarrow> Inl OutOfRangeException | Some v \<Rightarrow> Inr v)"

text \<open>\<^verbatim>\<open>x != 0.0\<close> on a float: false exactly for the two zeros, true for every NaN.\<close>

definition float_ne_zero :: "float32 \<Rightarrow> bool" where
  "float_ne_zero w = (w AND 0x7FFFFFFF \<noteq> 0)"

section \<open>Data model\<close>

text \<open>
  An attribute value is a tagged union; the accessors \<^verbatim>\<open>s()\<close>, \<^verbatim>\<open>f()\<close>, \<^verbatim>\<open>i()\<close> and
  \<^verbatim>\<open>ints()\<close> return the field's default when the attribute holds another kind.
\<close>

datatype AttributeProto =
    AttrFloat float32
  | AttrInt int64
  | AttrString string
  | AttrInts "int64 list"
  | AttrFloats "float32 list"

fun attr_s :: "AttributeProto \<Rightarrow> string" where
  "attr_s (AttrString x) = x"
| "attr_s _ = []"

fun attr_f :: "AttributeProto \<Rightarrow> float32" where
  "attr_f (AttrFloat x) = x"
| "attr_f _ = 0"

fun attr_i :: "AttributeProto \<Rightarrow> int64" where
  "attr_i (AttrInt x) = x"
| "attr_i _ = 0"

fun attr_ints :: "AttributeProto \<Rightarrow> int64 list" where
  "attr_ints (AttrInts xs) = xs"
| "attr_ints _ = []"

text \<open>
  A node: operator kind, domain and version, the names of its input and output tensor
  references in slot order, and its attribute map. Nodes live in the graph under their index.
\<close>

record Node =
  OpType :: string
  Domain :: string
  SinceVersion :: int
  InputDefs :: "string list"
  OutputDefs :: "string list"
  Attributes :: "string \<rightharpoonup> AttributeProto"

record Edge =
  src_node :: nat
  dst_node :: nat
  dst_arg :: nat

datatype Dimension = dim_value int64 | dim_param string

type_synonym TensorShapeProto = "Dimension list"

text \<open>
  Modelled from the spec: the class \<^verbatim>\<open>Initializer\<close> (core/optimizer/initializer.h) is not
  part of the sources at hand. A constant tensor is exposed as a typed element sequence
  (\<^verbatim>\<open>DataAsSpan<int64_t>\<close>) and as a raw byte view (\<^verbatim>\<open>DataAsByteSpan\<close>).
\<close>

record Initializer =
  DataAsSpan_int64 :: "int64 list"
  DataAsByteSpan :: "uint8 list"

text \<open>
  The graph owns the nodes (by index), the edges, the tensor references (by name, each with
  a shape pointer that may be null), the list of graph outputs and the constant initializers.
  A node's outgoing edges are the edges with that source, in the order of the list.
\<close>

record Graph =
  Nodes :: "nat \<rightharpoonup> Node"
  Edges :: "Edge list"
  NodeArgShape :: "string \<Rightarrow> TensorShapeProto option"
  GraphOutputs :: "string list"
  ConstantInitializers :: "string \<rightharpoonup> Initializer"

datatype RewriteRuleEffect =
    kNone
  | kUpdatedCurrentNode
  | kRemovedCurrentNode
  | kModifiedRestOfGraph

section \<open>Host graph interface\<close>

definition kOnnxDomain :: string where
  "kOnnxDomain = []"

text \<open>
  Modelled from the spec: \<^verbatim>\<open>graph_utils::IsSupportedOptypeVersionAndDomain\<close>
  (core/graph/graph_utils.h) is missing. An operator kind with its accepted version set,
  in the default operator domain.
\<close>

definition IsSupportedOptypeVersionAndDomain :: "Node \<Rightarrow> string \<Rightarrow> int list \<Rightarrow> bool" where
  "IsSupportedOptypeVersionAndDomain node op_type versions =
     (OpType node = op_type \<and> SinceVersion node \<in> set versions \<and> Domain node = kOnnxDomain)"

text \<open>Modelled from the spec: \<^verbatim>\<open>Graph::GetNode\<close> is missing. Node lookup by index; null when absent.\<close>

definition GetNode :: "Graph \<Rightarrow> nat \<Rightarrow> Node option" where
  "GetNode graph idx = Nodes graph idx"

text \<open>
  Modelled from the spec: \<^verbatim>\<open>Node::GetOutputEdgesCount\<close> and \<^verbatim>\<open>Node::OutputNodesBegin\<close>
  are missing. Outgoing-edge traversal and count; the first consumer is the target of the
  first outgoing edge, and there is none to dereference when the node has no outgoing edge.
\<close>

definition GetOutputEdges :: "Graph \<Rightarrow> nat \<Rightarrow> Edge list" where
  "GetOutputEdges graph idx = filter (\<lambda>e. src_node e = idx) (Edges graph)"

definition GetOutputEdgesCount :: "Graph \<Rightarrow> nat \<Rightarrow> nat" where
  "GetOutputEdgesCount graph idx = length (GetOutputEdges graph idx)"

definition OutputNodesBegin :: "Graph \<Rightarrow> nat \<Rightarrow> fault + nat" where
  "OutputNodesBegin graph idx =
     (case GetOutputEdges graph idx of [] \<Rightarrow> Inl NoOutputEdge | e # _ \<Rightarrow> Inr (dst_node e))"

text \<open>Modelled from the spec: \<^verbatim>\<open>Graph::NodeProducesGraphOutput\<close> is missing. Graph-output membership test.\<close>

definition NodeProducesGraphOutput :: "Graph \<Rightarrow> Node \<Rightarrow> bool" where
  "NodeProducesGraphOutput graph node =
     list_ex (\<lambda>output_def. output_def \<in> set (GraphOutputs graph)) (OutputDefs node)"

text \<open>
  Modelled from the spec: \<^verbatim>\<open>graph_utils::GetConstantInitializer\<close> and
  \<^verbatim>\<open>graph_utils::NodeArgIsConstant\<close> are missing. Constant-tensor resolution by tensor
  name; null when the name does not resolve to a constant tensor.
\<close>

definition GetConstantInitializer :: "Graph \<Rightarrow> string \<Rightarrow> Initializer option" where
  "GetConstantInitializer graph name = ConstantInitializers graph name"

definition NodeArgIsConstant :: "Graph \<Rightarrow> string \<Rightarrow> bool" where
  "NodeArgIsConstant graph name = (GetConstantInitializer graph name \<noteq> None)"

text \<open>Modelled from the spec: \<^verbatim>\<open>Node::AddAttribute\<close> is missing. Attribute write; an existing value is replaced.\<close>

definition AddAttribute :: "Node \<Rightarrow> string \<Rightarrow> AttributeProto \<Rightarrow> Node" where
  "AddAttribute node name v = node\<lparr>Attributes := (Attributes node)(name \<mapsto> v)\<rparr>"

text \<open>
  Modelled from the spec: \<^verbatim>\<open>graph_utils::RemoveNodeOutputEdges\<close> is missing. It detaches the
  node from the graph by removing its outgoing edges.
\<close>

definition RemoveNodeOutputEdges :: "Graph \<Rightarrow> nat \<Rightarrow> Graph" where
  "RemoveNodeOutputEdges graph idx = graph\<lparr>Edges := filter (\<lambda>e. src_node e \<noteq> idx) (Edges graph)\<rparr>"

text \<open>
  Modelled from the spec: \<^verbatim>\<open>graph_utils::ReplaceNodeInput\<close> is missing. It makes an input
  slot of the target node reference another tensor; the slot must be one the node declares.
\<close>

definition ReplaceNodeInput :: "Graph \<Rightarrow> nat \<Rightarrow> nat \<Rightarrow> string \<Rightarrow> fault + Graph" where
  "ReplaceNodeInput graph target_idx target_input_idx new_input =
     bindF (deref (GetNode graph target_idx)) (\<lambda>target.
       if target_input_idx < length (InputDefs target)
       then Inr (graph\<lparr>Nodes := (Nodes graph)(target_idx \<mapsto>
                   target\<lparr>InputDefs := (InputDefs target)[target_input_idx := new_input]\<rparr>)\<rparr>)
       else Inl EnforceFailed)"

text \<open>Modelled from the spec: \<^verbatim>\<open>NodeArg::SetShape\<close> is missing. It overwrites the shape descriptor of a tensor reference.\<close>

definition SetShape :: "Graph \<Rightarrow> string \<Rightarrow> TensorShapeProto \<Rightarrow> Graph" where
  "SetShape graph name shape = graph\<lparr>NodeArgShape := (NodeArgShape graph)(name := Some shape)\<rparr>"

text \<open>
  Modelled from the spec: \<^verbatim>\<open>Graph::RemoveNode\<close> is missing. It removes the node from the
  graph: its index no longer resolves, and the edges that ended at it go with it.
\<close>

definition RemoveNode :: "Graph \<Rightarrow> nat \<Rightarrow> Graph" where
  "RemoveNode graph idx =
     graph\<lparr>Nodes := (Nodes graph)(idx := None),
           Edges := filter (\<lambda>e. dst_node e \<noteq> idx) (Edges graph)\<rparr>"

section \<open>The match predicate\<close>

text \<open>\<^verbatim>\<open>VerifyNotCastChild\<close>, lines 11 to 51.\<close>

definition VerifyNotCastChild :: "Node \<Rightarrow> bool" where
  "VerifyNotCastChild child_node =
    (if \<not> IsSupportedOptypeVersionAndDomain child_node ''Conv'' [1, 11] \<and>
        \<not> IsSupportedOptypeVersionAndDomain child_node ''AveragePool'' [7, 10, 11, 19] \<and>
        \<not> IsSupportedOptypeVersionAndDomain child_node ''MaxPool'' [1, 8, 10, 11, 12]
     then False
     else if length (OutputDefs child_node) > 1 then False
     else if (case Attributes child_node ''auto_pad'' of
                None \<Rightarrow> False | Some a \<Rightarrow> attr_s a \<noteq> ''NOTSET'')
     then False
     else if OpType child_node = ''AveragePool'' then
       (let has_pad =
              (case Attributes child_node ''pads'' of
                 None \<Rightarrow> False
               | Some a \<Rightarrow> (let pads_values = attr_ints a in
                             if pads_values \<noteq> [] then list_ex (\<lambda>value. value \<noteq> 0) pads_values
                             else False))
        in if has_pad \<and> Attributes child_node ''count_include_pad'' \<noteq> None
           then (case Attributes child_node ''count_include_pad'' of
                   None \<Rightarrow> True
                 | Some c \<Rightarrow> if attr_i c = 0 then False else True)
           else True)
     else True)"

text \<open>
  Lines 109 to 130 of \<^verbatim>\<open>PadFusion::SatisfyCondition\<close>: the pad values and the fill value.
  \<^verbatim>\<open>node.InputDefs()[1]\<close> is read without a size check.
\<close>

definition constant_inputs_ok :: "Graph \<Rightarrow> Node \<Rightarrow> fault + bool" where
  "constant_inputs_ok graph node =
    (if SinceVersion node \<ge> 11 then
       bindF (vector_at (InputDefs node) 1) (\<lambda>input1.
         if \<not> NodeArgIsConstant graph input1 \<or>
            (length (InputDefs node) > 2 \<and> \<not> NodeArgIsConstant graph (InputDefs node ! 2))
         then Inr False
         else if length (InputDefs node) > 2 then
           bindF (deref (GetConstantInitializer graph (InputDefs node ! 2))) (\<lambda>pad_constant_value.
             if list_ex (\<lambda>byte. byte \<noteq> 0) (DataAsByteSpan pad_constant_value)
             then Inr False else Inr True)
         else Inr True)
     else
       (if (case Attributes node ''value'' of
              None \<Rightarrow> False | Some a \<Rightarrow> float_ne_zero (attr_f a))
        then Inr False else Inr True))"

text \<open>Lines 132 to 144: the walk through at most one cast node to the terminal consumer.\<close>

definition consumer_ok :: "Graph \<Rightarrow> nat \<Rightarrow> fault + bool" where
  "consumer_ok graph idx =
    bindF (OutputNodesBegin graph idx) (\<lambda>child_idx.
    bindF (deref (GetNode graph child_idx)) (\<lambda>child_node.
      if IsSupportedOptypeVersionAndDomain child_node ''Cast'' [1, 6, 9, 13] then
        (if GetOutputEdgesCount graph child_idx \<noteq> 1 then Inr False
         else if NodeProducesGraphOutput graph child_node then Inr False
         else
           bindF (OutputNodesBegin graph child_idx) (\<lambda>grandchild_idx.
           bindF (deref (GetNode graph grandchild_idx)) (\<lambda>grandchild_node.
             Inr (VerifyNotCastChild grandchild_node))))
      else Inr (VerifyNotCastChild child_node)))"

text \<open>\<^verbatim>\<open>PadFusion::SatisfyCondition\<close>, lines 91 to 145, on the node at index \<open>idx\<close>.\<close>

definition SatisfyCondition :: "Graph \<Rightarrow> nat \<Rightarrow> fault + bool" where
  "SatisfyCondition graph idx =
    bindF (deref (GetNode graph idx)) (\<lambda>node.
      if \<not> IsSupportedOptypeVersionAndDomain node ''Pad'' [1, 2, 11, 13, 18, 19] \<or>
         GetOutputEdgesCount graph idx \<noteq> 1 \<or>
         length (InputDefs node) > 3
      then Inr False
      else if NodeProducesGraphOutput graph node then Inr False
      else if (case Attributes node ''mode'' of
                 None \<Rightarrow> False | Some a \<Rightarrow> attr_s a \<noteq> ''constant'')
      then Inr False
      else
        bindF (constant_inputs_ok graph node) (\<lambda>ok.
          if \<not> ok then Inr False else consumer_ok graph idx))"


section \<open>The rewrite\<close>

text \<open>
  The loop of \<^verbatim>\<open>UpdatePaddingAttribute\<close>, lines 67 to 72: \<open>pads_index\<close> starts at 2 and
  \<open>child_index\<close> at 0; both are \<^verbatim>\<open>uint32_t\<close>, as are the two mirrored indices.
\<close>

function UpdatePaddingAttribute_loop ::
  "int64 list \<Rightarrow> uint32 \<Rightarrow> uint32 \<Rightarrow> uint32 \<Rightarrow> uint32 \<Rightarrow> int64 list \<Rightarrow> fault + int64 list" where
  "UpdatePaddingAttribute_loop pads_values pads_size child_pads_size pads_index child_index child_pads =
    (if pads_index < pads_size div 2 then
       bindF (repeated_Get child_pads child_index) (\<lambda>a.
       bindF (vector_at pads_values (unat pads_index)) (\<lambda>b.
       bindF (repeated_Set child_pads child_index (a + b)) (\<lambda>child_pads1.
         let mirrored_child_index = child_index + child_pads_size div 2;
             mirrored_pad_index = pads_index + pads_size div 2
         in
       bindF (repeated_Get child_pads1 mirrored_child_index) (\<lambda>c.
       bindF (vector_at pads_values (unat mirrored_pad_index)) (\<lambda>d.
       bindF (repeated_Set child_pads1 mirrored_child_index (c + d)) (\<lambda>child_pads2.
         UpdatePaddingAttribute_loop pads_values pads_size child_pads_size
           (pads_index + 1) (child_index + 1) child_pads2))))))
     else Inr child_pads)"
  by pat_completeness auto
termination
proof (relation "measure (\<lambda>(pads_values, pads_size, child_pads_size, pads_index, child_index, child_pads).
                            unat (pads_size div 2) - unat pads_index)")
  show "wf (measure (\<lambda>(pads_values, pads_size, child_pads_size, pads_index, child_index, child_pads).
                            unat (pads_size div 2) - unat pads_index))"
    by simp
next
  fix pads_values :: "int64 list" and pads_size child_pads_size pads_index child_index :: uint32
    and child_pads xg :: "int64 list"
  assume lt: "pads_index < pads_size div 2"
  then have "unat pads_index < unat (pads_size div 2)"
    by (simp add: word_less_nat_alt)
  moreover from lt have "unat (pads_index + 1) = unat pads_index + 1"
    by unat_arith
  ultimately show "((pads_values, pads_size, child_pads_size, pads_index + 1, child_index + 1, xg),
          (pads_values, pads_size, child_pads_size, pads_index, child_index, child_pads))
         \<in> measure (\<lambda>(pads_values, pads_size, child_pads_size, pads_index, child_index, child_pads).
                            unat (pads_size div 2) - unat pads_index)"
    by simp
qed

text \<open>\<^verbatim>\<open>GetMutableAttributes()[name].mutable_ints()\<close>: the integer list of an attribute, written in place.\<close>

definition mutable_ints :: "Node \<Rightarrow> string \<Rightarrow> int64 list" where
  "mutable_ints node name = (case Attributes node name of None \<Rightarrow> [] | Some a \<Rightarrow> attr_ints a)"

definition store_ints :: "Node \<Rightarrow> string \<Rightarrow> int64 list \<Rightarrow> Node" where
  "store_ints node name xs = node\<lparr>Attributes := (Attributes node)(name \<mapsto> AttrInts xs)\<rparr>"

text \<open>\<^verbatim>\<open>UpdatePaddingAttribute\<close>, lines 53 to 77; the result is the node as mutated.\<close>

definition UpdatePaddingAttribute :: "Node \<Rightarrow> int64 list \<Rightarrow> uint32 \<Rightarrow> fault + Node" where
  "UpdatePaddingAttribute child_node pads_values pads_size =
    (let reset_pads =
           (case Attributes child_node ''pads'' of None \<Rightarrow> True | Some a \<Rightarrow> attr_ints a = []);
         child_node1 =
           (if reset_pads
            then AddAttribute child_node ''pads'' (AttrInts (replicate (unat (pads_size - 4)) 0))
            else child_node);
         child_pads = mutable_ints child_node1 ''pads'';
         child_pads_size = (of_nat (length child_pads) :: uint32)
     in
       bindF (UpdatePaddingAttribute_loop pads_values pads_size child_pads_size 2 0 child_pads)
         (\<lambda>child_pads'.
           let child_node2 = store_ints child_node1 ''pads'' child_pads'
           in if OpType child_node2 = ''AveragePool''
              then Inr (AddAttribute child_node2 ''count_include_pad'' (AttrInt 1))
              else Inr child_node2))"

text \<open>Lines 151 to 159 of \<^verbatim>\<open>PadFusion::Apply\<close>: the pad values, from input 1 or from the attribute.\<close>

definition resolve_pads_values :: "Graph \<Rightarrow> Node \<Rightarrow> fault + int64 list" where
  "resolve_pads_values graph pad_node =
    (if SinceVersion pad_node \<ge> 11 then
       bindF (vector_at (InputDefs pad_node) 1) (\<lambda>input1.
       bindF (deref (GetConstantInitializer graph input1)) (\<lambda>pads.
         Inr (DataAsSpan_int64 pads)))
     else
       bindF (map_at (Attributes pad_node) ''pads'') (\<lambda>a. Inr (attr_ints a)))"

text \<open>Lines 163 and 164: the four reads of the batch and channel entries, left to right.\<close>

definition non_spatial_padding :: "int64 list \<Rightarrow> uint32 \<Rightarrow> fault + bool" where
  "non_spatial_padding pads_values pads_size =
    bindF (vector_at pads_values 0) (\<lambda>v0.
      if v0 \<noteq> 0 then Inr True else
    bindF (vector_at pads_values 1) (\<lambda>v1.
      if v1 \<noteq> 0 then Inr True else
    bindF (vector_at pads_values (unat (pads_size div 2))) (\<lambda>v2.
      if v2 \<noteq> 0 then Inr True else
    bindF (vector_at pads_values (unat (pads_size div 2 + 1))) (\<lambda>v3.
      Inr (v3 \<noteq> 0)))))"

text \<open>Line 169.\<close>

definition negative_padding :: "int64 list \<Rightarrow> bool" where
  "negative_padding pads_values = list_ex (\<lambda>value. sint value < 0) pads_values"

text \<open>
  Lines 173 to 187: the node whose \<open>pads\<close> are updated, and the structural edit. The
  operator kind and the tensor references of a node are not changed by the attribute
  update, so they are read from the nodes as first dereferenced; nodes are written through
  the graph under their index, since the consumer and the target may be one node.
\<close>

definition fuse :: "Graph \<Rightarrow> nat \<Rightarrow> Node \<Rightarrow> int64 list \<Rightarrow> uint32 \<Rightarrow> fault + Graph" where
  "fuse graph pad_idx pad_node pads_values pads_size =
    bindF (OutputNodesBegin graph pad_idx) (\<lambda>child_idx.
    bindF (deref (GetNode graph child_idx)) (\<lambda>child_node.
    bindF (if OpType child_node = ''Cast''
           then OutputNodesBegin graph child_idx
           else Inr child_idx) (\<lambda>target_idx.
    bindF (deref (GetNode graph target_idx)) (\<lambda>target_padding_node.
    bindF (UpdatePaddingAttribute target_padding_node pads_values pads_size) (\<lambda>target_padding_node'.
      let graph1 = graph\<lparr>Nodes := (Nodes graph)(target_idx \<mapsto> target_padding_node')\<rparr>;
          graph2 = RemoveNodeOutputEdges graph1 pad_idx
      in
    bindF (vector_at (InputDefs pad_node) 0) (\<lambda>pad_input0.
    bindF (ReplaceNodeInput graph2 child_idx 0 pad_input0) (\<lambda>graph3.
    bindF (if OpType child_node = ''Cast''
           then bindF (vector_at (OutputDefs child_node) 0) (\<lambda>cast_output_node_arg.
                bindF (deref (NodeArgShape graph3 pad_input0)) (\<lambda>shape.
                  Inr (SetShape graph3 cast_output_node_arg shape)))
           else Inr graph3) (\<lambda>graph4.
      Inr (RemoveNode graph4 pad_idx)))))))))"

text \<open>
  \<^verbatim>\<open>PadFusion::Apply\<close>, lines 150 to 189, on the node at index \<open>pad_idx\<close>. The effect is an
  out-parameter: it is written only on the last line, so the value the caller passed in
  comes back on every early return.
\<close>

definition Apply :: "Graph \<Rightarrow> nat \<Rightarrow> RewriteRuleEffect \<Rightarrow> fault + (Graph \<times> RewriteRuleEffect)" where
  "Apply graph pad_idx rule_effect =
    bindF (deref (GetNode graph pad_idx)) (\<lambda>pad_node.
    bindF (resolve_pads_values graph pad_node) (\<lambda>pads_values.
      let pads_size = (of_nat (length pads_values) :: uint32) in
    bindF (non_spatial_padding pads_values pads_size) (\<lambda>non_spatial.
      if non_spatial then Inr (graph, rule_effect)
      else if negative_padding pads_values then Inr (graph, rule_effect)
      else
        bindF (fuse graph pad_idx pad_node pads_values pads_size) (\<lambda>graph'.
          Inr (graph', kRemovedCurrentNode)))))"


section \<open>Example graphs\<close>

text \<open>
  A pad node of opset 2, whose pad values are an attribute, in front of a convolution or an
  average pool; and a pad node of opset 13, whose pad values and fill value are constant
  inputs, in front of a cast and a convolution.
\<close>

definition example_pad :: "int64 list \<Rightarrow> Node" where
  "example_pad pads =
     \<lparr>OpType = ''Pad'', Domain = kOnnxDomain, SinceVersion = 2,
      InputDefs = [''X''], OutputDefs = [''padded''],
      Attributes = [''mode'' \<mapsto> AttrString ''constant'', ''pads'' \<mapsto> AttrInts pads,
                    ''value'' \<mapsto> AttrFloat 0]\<rparr>"

definition example_conv :: "int64 list \<Rightarrow> Node" where
  "example_conv pads =
     \<lparr>OpType = ''Conv'', Domain = kOnnxDomain, SinceVersion = 11,
      InputDefs = [''padded'', ''W''], OutputDefs = [''Y''],
      Attributes = [''pads'' \<mapsto> AttrInts pads]\<rparr>"

definition example_average_pool :: "int64 list \<Rightarrow> int64 \<Rightarrow> Node" where
  "example_average_pool pads count_include_pad =
     \<lparr>OpType = ''AveragePool'', Domain = kOnnxDomain, SinceVersion = 11,
      InputDefs = [''padded''], OutputDefs = [''Y''],
      Attributes = [''kernel_shape'' \<mapsto> AttrInts [3, 3], ''pads'' \<mapsto> AttrInts pads,
                    ''count_include_pad'' \<mapsto> AttrInt count_include_pad]\<rparr>"

definition example_shape :: TensorShapeProto where
  "example_shape = [dim_value 1, dim_value 3, dim_value 8, dim_value 8]"

definition example_graph :: "Node \<Rightarrow> Node \<Rightarrow> Graph" where
  "example_graph pad_node consumer =
     \<lparr>Nodes = [0 \<mapsto> pad_node, 1 \<mapsto> consumer],
      Edges = [\<lparr>src_node = 0, dst_node = 1, dst_arg = 0\<rparr>],
      NodeArgShape = (\<lambda>name. None)
        (''X'' := Some example_shape,
         ''padded'' := Some [dim_value 1, dim_value 3, dim_value 10, dim_value 10]),
      GraphOutputs = [''Y''],
      ConstantInitializers = Map.empty\<rparr>"

definition example_pad13 :: Node where
  "example_pad13 =
     \<lparr>OpType = ''Pad'', Domain = kOnnxDomain, SinceVersion = 13,
      InputDefs = [''X'', ''pads'', ''constant_value''], OutputDefs = [''padded''],
      Attributes = [''mode'' \<mapsto> AttrString ''constant'']\<rparr>"

definition example_cast :: Node where
  "example_cast =
     \<lparr>OpType = ''Cast'', Domain = kOnnxDomain, SinceVersion = 13,
      InputDefs = [''padded''], OutputDefs = [''casted''],
      Attributes = [''to'' \<mapsto> AttrInt 1]\<rparr>"

definition example_cast_graph :: "TensorShapeProto option \<Rightarrow> Graph" where
  "example_cast_graph input_shape =
     \<lparr>Nodes = [0 \<mapsto> example_pad13, 1 \<mapsto> example_cast,
               2 \<mapsto> (example_conv [0, 0, 0, 0])\<lparr>InputDefs := [''casted'', ''W'']\<rparr>],
      Edges = [\<lparr>src_node = 0, dst_node = 1, dst_arg = 0\<rparr>,
               \<lparr>src_node = 1, dst_node = 2, dst_arg = 0\<rparr>],
      NodeArgShape = (\<lambda>name. None)
        (''X'' := input_shape,
         ''padded'' := Some [dim_value 1, dim_value 3, dim_value 10, dim_value 10],
         ''casted'' := Some [dim_value 1, dim_value 3, dim_value 10, dim_value 10]),
      GraphOutputs = [''Y''],
      ConstantInitializers =
        [''pads'' \<mapsto> \<lparr>DataAsSpan_int64 = [0, 0, 1, 1, 0, 0, 1, 1], DataAsByteSpan = []\<rparr>,
         ''constant_value'' \<mapsto> \<lparr>DataAsSpan_int64 = [], DataAsByteSpan = [0, 0, 0, 0]\<rparr>]\<rparr>"


section \<open>Notions of the specification\<close>

text \<open>
  The target's existing \<open>pads\<close> as the merge starts from them: the attribute's integers,
  or, when the attribute is absent or empty, the zeros that \<^verbatim>\<open>UpdatePaddingAttribute\<close>
  stores first (\<^verbatim>\<open>pads_size - 4\<close> of them, in \<^verbatim>\<open>uint32_t\<close> arithmetic).
\<close>

definition existing_pads :: "Node \<Rightarrow> uint32 \<Rightarrow> int64 list" where
  "existing_pads t ps =
     (case Attributes t ''pads'' of
        None \<Rightarrow> replicate (unat (ps - 4)) 0
      | Some a \<Rightarrow> if attr_ints a = [] then replicate (unat (ps - 4)) 0 else attr_ints a)"

text \<open>
  The merged \<open>pads\<close> in the words of the specification: to the begin-side entry of spatial
  dimension \<open>d\<close> (entry \<open>d\<close> of the first half) the pad node's begin-side value \<open>p[2 + d]\<close>
  is added, to the mirrored end-side entry (entry \<open>d\<close> of the second half) its end-side
  value \<open>p[rank + 2 + d]\<close>, for each of the \<open>rank - 2\<close> spatial dimensions.
\<close>

definition spec_merged_pads :: "int64 list \<Rightarrow> int64 list \<Rightarrow> nat \<Rightarrow> int64 list" where
  "spec_merged_pads old p rank =
     map (\<lambda>j. old ! j
               + (if j < rank - 2 then p ! (2 + j) else 0)
               + (if length old div 2 \<le> j \<and> j - length old div 2 < rank - 2
                  then p ! (rank + 2 + (j - length old div 2)) else 0))
         [0 ..< length old]"

text \<open>
  The pad-value sequence of a pad node as the specification speaks of it: the constant
  tensor behind input 1 from opset 11 on, the \<open>pads\<close> attribute before; empty when there is
  none to resolve.
\<close>

definition pad_sequence :: "Graph \<Rightarrow> Node \<Rightarrow> int64 list" where
  "pad_sequence graph pad_node =
     (if SinceVersion pad_node \<ge> 11 then
        (if 1 < length (InputDefs pad_node) then
           (case GetConstantInitializer graph (InputDefs pad_node ! 1) of
              None \<Rightarrow> [] | Some init \<Rightarrow> DataAsSpan_int64 init)
         else [])
      else (case Attributes pad_node ''pads'' of None \<Rightarrow> [] | Some a \<Rightarrow> attr_ints a))"

section \<open>Sequencing, reads and word arithmetic\<close>

lemma bindF_Inr [simp]: "bindF (Inr x) k = k x"
  by (simp add: bindF_def)

lemma bindF_Inl [simp]: "bindF (Inl e) k = Inl e"
  by (simp add: bindF_def)

lemma bindF_eq_Inr: "bindF m k = Inr y \<longleftrightarrow> (\<exists>x. m = Inr x \<and> k x = Inr y)"
  by (cases m) simp_all

lemma deref_Some [simp]: "deref (Some x) = Inr x"
  by (simp add: deref_def)

lemma deref_None [simp]: "deref None = Inl NullDereference"
  by (simp add: deref_def)

lemma deref_eq_Inr [simp]: "deref p = Inr x \<longleftrightarrow> p = Some x"
  by (cases p) simp_all

lemma vector_at_in [simp]: "i < length xs \<Longrightarrow> vector_at xs i = Inr (xs ! i)"
  by (simp add: vector_at_def)

lemma vector_at_out [simp]: "\<not> i < length xs \<Longrightarrow> vector_at xs i = Inl IndexOutOfBounds"
  by (simp add: vector_at_def)

lemma unat_half: "unat ((w :: uint32) div 2) = unat w div 2"
  by (simp add: unat_div)

lemma unat_half_Suc: "unat ((w :: uint32) div 2 + 1) = unat w div 2 + 1"
proof -
  have "unat w < 2 ^ 32"
    using unsigned_less [of w] by simp
  then have "unat (w div 2) + unat (1 :: uint32) < 2 ^ 32"
    by (simp add: unat_half)
  then have "unat (w div 2 + 1) = unat (w div 2) + unat (1 :: uint32)"
    by (simp add: unat_add_lem [THEN iffD1])
  then show ?thesis by (simp add: unat_half)
qed

lemma unat_length_le: "unat (of_nat n :: uint32) \<le> n"
  by (simp add: unat_of_nat)

lemma unat_half_of_nat_le: "unat ((of_nat n :: uint32) div 2) \<le> n div 2"
  using unat_length_le [of n] by (simp add: unat_half div_le_mono)

lemma unat_half_bound: "unat ((w :: uint32) div 2) < 2 ^ 31"
proof -
  have "unat w < 2 ^ 32"
    using unsigned_less [of w] by simp
  then show ?thesis by (simp add: unat_half)
qed

lemma unat_add_half:
  fixes i w :: uint32
  assumes "unat i < 2 ^ 31"
  shows "unat (i + w div 2) = unat i + unat (w div 2)"
proof -
  have "unat i + unat (w div 2) < 2 ^ 32"
    using assms unat_half_bound [of w] by simp
  then show ?thesis
    by (simp add: unat_add_lem [THEN iffD1])
qed

lemma unat_add_one:
  fixes i :: uint32
  assumes "unat i < 2 ^ 31"
  shows "unat (i + 1) = unat i + 1"
proof -
  have "unat i + unat (1 :: uint32) < 2 ^ 32"
    using assms by simp
  then have "unat (i + 1) = unat i + unat (1 :: uint32)"
    by (simp add: unat_add_lem [THEN iffD1])
  then show ?thesis by simp
qed

lemma unat_of_nat_uint32:
  assumes "n < (2 :: nat) ^ 32"
  shows "unat (of_nat n :: uint32) = n"
  using assms by (simp add: unat_of_nat)

lemma pads_size_minus_4:
  assumes "n < (2 :: nat) ^ 32" and "4 \<le> n"
  shows "unat ((of_nat n :: uint32) - 4) = n - 4"
proof -
  have "(4 :: uint32) \<le> of_nat n"
    using assms by (simp add: word_le_nat_alt unat_of_nat_uint32)
  then have "unat ((of_nat n :: uint32) - 4) = unat (of_nat n :: uint32) - unat (4 :: uint32)"
    by (rule unat_sub)
  then show ?thesis
    using assms by (simp add: unat_of_nat_uint32)
qed


section \<open>Facts about the match predicate\<close>

lemma constant_inputs_ok_total:
  assumes "SinceVersion node \<ge> 11 \<longrightarrow> 2 \<le> length (InputDefs node)"
  shows "\<exists>b. constant_inputs_ok graph node = Inr b"
  using assms
  by (auto simp: constant_inputs_ok_def vector_at_def NodeArgIsConstant_def)

lemma constant_inputs_ok_True:
  assumes "constant_inputs_ok graph node = Inr True"
  shows "if SinceVersion node \<ge> 11
         then 2 \<le> length (InputDefs node) \<and> NodeArgIsConstant graph (InputDefs node ! 1) \<and>
              (length (InputDefs node) > 2 \<longrightarrow>
                 (\<exists>init. GetConstantInitializer graph (InputDefs node ! 2) = Some init \<and>
                         (\<forall>b \<in> set (DataAsByteSpan init). b = 0)))
         else (\<forall>a. Attributes node ''value'' = Some a \<longrightarrow> \<not> float_ne_zero (attr_f a))"
  using assms
  by (auto simp: constant_inputs_ok_def vector_at_def NodeArgIsConstant_def bindF_eq_Inr list_ex_iff
      split: if_splits option.splits)

lemma SatisfyCondition_True:
  assumes "SatisfyCondition graph idx = Inr True"
  shows "\<exists>node. GetNode graph idx = Some node \<and>
           IsSupportedOptypeVersionAndDomain node ''Pad'' [1, 2, 11, 13, 18, 19] \<and>
           GetOutputEdgesCount graph idx = 1 \<and> length (InputDefs node) \<le> 3 \<and>
           \<not> NodeProducesGraphOutput graph node \<and>
           (\<forall>a. Attributes node ''mode'' = Some a \<longrightarrow> attr_s a = ''constant'') \<and>
           constant_inputs_ok graph node = Inr True \<and>
           consumer_ok graph idx = Inr True"
  using assms
  by (auto simp: SatisfyCondition_def bindF_eq_Inr split: if_splits option.splits)

lemma VerifyNotCastChild_True:
  assumes "VerifyNotCastChild t"
  shows "((OpType t = ''Conv'' \<and> SinceVersion t \<in> {1, 11}) \<or>
          (OpType t = ''AveragePool'' \<and> SinceVersion t \<in> {7, 10, 11, 19}) \<or>
          (OpType t = ''MaxPool'' \<and> SinceVersion t \<in> {1, 8, 10, 11, 12})) \<and>
         length (OutputDefs t) \<le> 1 \<and>
         (\<forall>a. Attributes t ''auto_pad'' = Some a \<longrightarrow> attr_s a = ''NOTSET'')"
  using assms
  by (auto simp: VerifyNotCastChild_def IsSupportedOptypeVersionAndDomain_def
      split: if_splits option.splits)

lemma VerifyNotCastChild_AveragePool:
  assumes "OpType t = ''AveragePool''"
    and "Attributes t ''pads'' = Some p" and "\<exists>v \<in> set (attr_ints p). v \<noteq> 0"
    and "Attributes t ''count_include_pad'' = Some c" and "attr_i c = 0"
  shows "\<not> VerifyNotCastChild t"
  using assms
  by (auto simp: VerifyNotCastChild_def list_ex_iff Let_def)

lemma consumer_ok_True:
  assumes "consumer_ok graph idx = Inr True"
  shows "\<exists>child_idx child t_idx t.
           OutputNodesBegin graph idx = Inr child_idx \<and> GetNode graph child_idx = Some child \<and>
           (if IsSupportedOptypeVersionAndDomain child ''Cast'' [1, 6, 9, 13]
            then GetOutputEdgesCount graph child_idx = 1 \<and>
                 \<not> NodeProducesGraphOutput graph child \<and>
                 OutputNodesBegin graph child_idx = Inr t_idx
            else t_idx = child_idx) \<and>
           GetNode graph t_idx = Some t \<and> VerifyNotCastChild t"
proof -
  from assms obtain child_idx child where
    b: "OutputNodesBegin graph idx = Inr child_idx" and c: "GetNode graph child_idx = Some child"
    and rest: "(if IsSupportedOptypeVersionAndDomain child ''Cast'' [1, 6, 9, 13] then
        (if GetOutputEdgesCount graph child_idx \<noteq> 1 then Inr False
         else if NodeProducesGraphOutput graph child then Inr False
         else
           bindF (OutputNodesBegin graph child_idx) (\<lambda>grandchild_idx.
           bindF (deref (GetNode graph grandchild_idx)) (\<lambda>grandchild_node.
             Inr (VerifyNotCastChild grandchild_node))))
      else Inr (VerifyNotCastChild child)) = (Inr True :: fault + bool)"
    unfolding consumer_ok_def by (auto simp: bindF_eq_Inr)
  show ?thesis
  proof (cases "IsSupportedOptypeVersionAndDomain child ''Cast'' [1, 6, 9, 13]")
    case True
    with rest obtain t_idx t where "GetOutputEdgesCount graph child_idx = 1"
      "\<not> NodeProducesGraphOutput graph child" "OutputNodesBegin graph child_idx = Inr t_idx"
      "GetNode graph t_idx = Some t" "VerifyNotCastChild t"
      by (auto simp: bindF_eq_Inr split: if_splits)
    with b c True show ?thesis by auto
  next
    case False
    with rest have "VerifyNotCastChild child" by simp
    with b c False show ?thesis by auto
  qed
qed


section \<open>Facts about the guards\<close>

lemma non_spatial_padding_nonzero:
  fixes p :: "int64 list"
  defines "half \<equiv> unat ((of_nat (length p) :: uint32) div 2)"
  assumes "\<exists>i \<in> {0, 1, half, half + 1}. i < length p \<and> p ! i \<noteq> 0"
  shows "non_spatial_padding p (of_nat (length p)) = Inr True"
proof -
  have h1: "unat ((of_nat (length p) :: uint32) div 2 + 1) = half + 1"
    by (simp add: half_def unat_half_Suc unat_half)
  have hl: "half \<le> length p div 2"
    using unat_length_le [of "length p"] by (simp add: half_def unat_half div_le_mono)
  from assms(2) have ne: "0 < length p" by auto
  show ?thesis
  proof (cases "p ! 0 = 0")
    case False
    with ne show ?thesis by (simp add: non_spatial_padding_def)
  next
    case z0: True
    with assms(2) have "\<exists>i \<in> {1, half, half + 1}. i < length p \<and> p ! i \<noteq> 0"
      by auto
    with z0 have len: "1 < length p"
      using hl by (cases "half = 0") auto
    show ?thesis
    proof (cases "p ! 1 = 0")
      case False
      with ne len z0 show ?thesis by (simp add: non_spatial_padding_def)
    next
      case z1: True
      from len hl have hb: "half < length p" by linarith
      show ?thesis
      proof (cases "p ! half = 0")
        case False
        with ne len z0 z1 hb show ?thesis
          by (simp add: non_spatial_padding_def half_def [symmetric])
      next
        case z2: True
        with z0 z1 assms(2) have "half + 1 < length p \<and> p ! (half + 1) \<noteq> 0"
          by auto
        with ne len z0 z1 z2 hb show ?thesis
          by (simp add: non_spatial_padding_def half_def [symmetric] h1)
      qed
    qed
  qed
qed

lemma non_spatial_padding_negative_total:
  fixes p :: "int64 list"
  assumes "\<exists>v \<in> set p. sint v < 0"
  shows "\<exists>b. non_spatial_padding p (of_nat (length p)) = Inr b"
proof -
  define half where "half = unat ((of_nat (length p) :: uint32) div 2)"
  have h1: "unat ((of_nat (length p) :: uint32) div 2 + 1) = half + 1"
    by (simp add: half_def unat_half_Suc unat_half)
  have hl: "half \<le> length p div 2"
    using unat_length_le [of "length p"] by (simp add: half_def unat_half div_le_mono)
  from assms obtain j where j: "j < length p" "sint (p ! j) < 0"
    by (auto simp: in_set_conv_nth)
  then have nz: "p ! j \<noteq> 0" by auto
  show ?thesis
  proof (cases "\<exists>i \<in> {0, 1, half, half + 1}. i < length p \<and> p ! i \<noteq> 0")
    case True
    then have "non_spatial_padding p (of_nat (length p)) = Inr True"
      unfolding half_def by (rule non_spatial_padding_nonzero)
    then show ?thesis by blast
  next
    case False
    then have z: "\<And>i. i \<in> {0, 1, half, half + 1} \<Longrightarrow> i < length p \<Longrightarrow> p ! i = 0"
      by blast
    have "j \<noteq> 0"
      using z [of 0] j nz by (cases "j = 0") simp_all
    moreover have "j \<noteq> 1"
      using z [of 1] j nz by (cases "j = 1") simp_all
    ultimately have len: "2 < length p"
      using j by simp
    with hl have hb: "half + 1 < length p" by linarith
    have r0: "vector_at p 0 = Inr (p ! 0)" and r1: "vector_at p 1 = Inr (p ! 1)"
      using len by (auto simp: vector_at_def)
    have r2: "vector_at p (unat ((of_nat (length p) :: uint32) div 2)) = Inr (p ! half)"
      using hb by (simp add: half_def)
    have r3: "vector_at p (unat ((of_nat (length p) :: uint32) div 2 + 1)) = Inr (p ! (half + 1))"
      using hb by (simp only: h1 vector_at_in)
    show ?thesis
      unfolding non_spatial_padding_def r0 r1 r2 r3 by auto
  qed
qed

lemma non_spatial_padding_False:
  fixes p :: "int64 list"
  assumes "non_spatial_padding p (of_nat (length p)) = Inr False"
  shows "unat ((of_nat (length p) :: uint32) div 2) + 1 < length p"
proof -
  have h1: "unat ((of_nat (length p) :: uint32) div 2 + 1) =
            unat ((of_nat (length p) :: uint32) div 2) + 1"
    by (simp add: unat_half_Suc unat_half)
  from assms show ?thesis
    unfolding non_spatial_padding_def h1
    by (auto simp: bindF_eq_Inr vector_at_def split: if_splits)
qed

lemma non_spatial_padding_total:
  fixes p :: "int64 list"
  assumes "3 \<le> length p"
  shows "\<exists>b. non_spatial_padding p (of_nat (length p)) = Inr b"
proof -
  define half where "half = unat ((of_nat (length p) :: uint32) div 2)"
  have h1: "unat ((of_nat (length p) :: uint32) div 2 + 1) = half + 1"
    by (simp add: half_def unat_half_Suc unat_half)
  have hl: "half \<le> length p div 2"
    unfolding half_def by (rule unat_half_of_nat_le)
  with assms have hb: "half + 1 < length p" by linarith
  have r0: "vector_at p 0 = Inr (p ! 0)" and r1: "vector_at p 1 = Inr (p ! 1)"
    using assms by (auto simp: vector_at_def)
  have r2: "vector_at p (unat ((of_nat (length p) :: uint32) div 2)) = Inr (p ! half)"
    using hb by (simp add: half_def)
  have r3: "vector_at p (unat ((of_nat (length p) :: uint32) div 2 + 1)) = Inr (p ! (half + 1))"
    using hb by (simp only: h1 vector_at_in)
  show ?thesis
    unfolding non_spatial_padding_def r0 r1 r2 r3 by auto
qed

lemma resolve_pads_values_pad_sequence:
  assumes c: "constant_inputs_ok graph pad_node = Inr True"
    and ne: "pad_sequence graph pad_node \<noteq> []"
  shows "resolve_pads_values graph pad_node = Inr (pad_sequence graph pad_node)"
proof (cases "SinceVersion pad_node \<ge> 11")
  case True
  with constant_inputs_ok_True [OF c]
  have "2 \<le> length (InputDefs pad_node)" "NodeArgIsConstant graph (InputDefs pad_node ! 1)"
    by simp_all
  then obtain init where "1 < length (InputDefs pad_node)"
    "GetConstantInitializer graph (InputDefs pad_node ! 1) = Some init"
    by (auto simp: NodeArgIsConstant_def)
  with True show ?thesis
    by (simp add: resolve_pads_values_def pad_sequence_def)
next
  case False
  with ne obtain a where "Attributes pad_node ''pads'' = Some a"
    by (auto simp: pad_sequence_def split: option.splits)
  with False show ?thesis
    by (simp add: resolve_pads_values_def pad_sequence_def map_at_def)
qed


section \<open>Facts about the padding merge\<close>

text \<open>
  The loop is unfolded one iteration at a time: while it runs, the two indices stay two
  apart and below \<open>2 ^ 31\<close>, so none of the \<^verbatim>\<open>uint32_t\<close> additions wraps.
\<close>

lemma mutable_ints_existing:
  "mutable_ints
     (if (case Attributes t ''pads'' of None \<Rightarrow> True | Some a \<Rightarrow> attr_ints a = [])
      then AddAttribute t ''pads'' (AttrInts (replicate (unat (ps - 4)) 0))
      else t) ''pads'' = existing_pads t ps"
  by (simp add: mutable_ints_def existing_pads_def AddAttribute_def split: option.splits)

lemma store_ints_reset:
  "store_ints
     (if (case Attributes t ''pads'' of None \<Rightarrow> True | Some a \<Rightarrow> attr_ints a = [])
      then AddAttribute t ''pads'' (AttrInts (replicate (unat (ps - 4)) 0))
      else t) ''pads'' new = t\<lparr>Attributes := (Attributes t)(''pads'' \<mapsto> AttrInts new)\<rparr>"
  by (simp add: store_ints_def AddAttribute_def)

lemma UpdatePaddingAttribute_eq:
  "UpdatePaddingAttribute t p ps =
     bindF (UpdatePaddingAttribute_loop p ps (of_nat (length (existing_pads t ps))) 2 0
              (existing_pads t ps))
       (\<lambda>new. Inr (t\<lparr>Attributes :=
                      (if OpType t = ''AveragePool''
                       then (Attributes t)(''pads'' \<mapsto> AttrInts new, ''count_include_pad'' \<mapsto> AttrInt 1)
                       else (Attributes t)(''pads'' \<mapsto> AttrInts new))\<rparr>))"
  unfolding UpdatePaddingAttribute_def Let_def mutable_ints_existing store_ints_reset
  by (simp add: AddAttribute_def cong: if_cong)

lemma UpdatePaddingAttribute_Inr:
  assumes "UpdatePaddingAttribute t p ps = Inr t'"
  shows "\<exists>new. UpdatePaddingAttribute_loop p ps (of_nat (length (existing_pads t ps))) 2 0
                  (existing_pads t ps) = Inr new \<and>
               t' = t\<lparr>Attributes :=
                      (if OpType t = ''AveragePool''
                       then (Attributes t)(''pads'' \<mapsto> AttrInts new, ''count_include_pad'' \<mapsto> AttrInt 1)
                       else (Attributes t)(''pads'' \<mapsto> AttrInts new))\<rparr>"
  using assms unfolding UpdatePaddingAttribute_eq bindF_eq_Inr by blast

lemma UpdatePaddingAttribute_loop_step:
  fixes pads_index child_index :: uint32
  assumes lt: "pads_index < pads_size div 2"
    and inv: "unat pads_index = unat child_index + 2"
  shows "UpdatePaddingAttribute_loop pads_values pads_size child_pads_size pads_index child_index child_pads =
     (if unat child_index + unat (child_pads_size div 2) < length child_pads \<and>
         unat pads_index + unat (pads_size div 2) < length pads_values
      then UpdatePaddingAttribute_loop pads_values pads_size child_pads_size
             (pads_index + 1) (child_index + 1)
             ((child_pads[unat child_index :=
                  child_pads ! unat child_index + pads_values ! unat pads_index])
               [unat child_index + unat (child_pads_size div 2) :=
                  (child_pads[unat child_index :=
                     child_pads ! unat child_index + pads_values ! unat pads_index])
                    ! (unat child_index + unat (child_pads_size div 2))
                  + pads_values ! (unat pads_index + unat (pads_size div 2))])
      else Inl IndexOutOfBounds)"
proof -
  from lt have pk: "unat pads_index < unat (pads_size div 2)"
    by (simp add: word_less_nat_alt)
  then have p31: "unat pads_index < 2 ^ 31"
    using unat_half_bound [of pads_size] by simp
  with inv have c31: "unat child_index < 2 ^ 31" by simp
  have m1: "unat (child_index + child_pads_size div 2) =
              unat child_index + unat (child_pads_size div 2)"
    using c31 by (rule unat_add_half)
  have m2: "unat (pads_index + pads_size div 2) = unat pads_index + unat (pads_size div 2)"
    using p31 by (rule unat_add_half)
  show ?thesis
    apply (subst UpdatePaddingAttribute_loop.simps)
    apply (simp only: lt if_True Let_def repeated_Get_def repeated_Set_def m1 m2)
    apply (simp add: vector_at_def)
    done
qed

lemma UpdatePaddingAttribute_loop_done:
  "\<not> pads_index < pads_size div 2 \<Longrightarrow>
   UpdatePaddingAttribute_loop pads_values pads_size child_pads_size pads_index child_index child_pads =
     Inr child_pads"
  by (subst UpdatePaddingAttribute_loop.simps) simp

lemma UpdatePaddingAttribute_loop_total:
  fixes pads_index child_index :: uint32
  assumes "2 * unat (pads_size div 2) \<le> length pads_values"
    and "unat (pads_size div 2) - 2 + unat (child_pads_size div 2) \<le> length child_pads"
    and "unat pads_index = unat child_index + 2"
  shows "\<exists>r. UpdatePaddingAttribute_loop pads_values pads_size child_pads_size
               pads_index child_index child_pads = Inr r"
  using assms
proof (induction "unat (pads_size div 2) - unat pads_index"
    arbitrary: pads_index child_index child_pads)
  case 0
  then have "\<not> pads_index < pads_size div 2"
    by (simp add: word_less_nat_alt)
  then show ?case
    by (simp add: UpdatePaddingAttribute_loop_done)
next
  case (Suc n)
  from Suc.hyps(2) have pk: "unat pads_index < unat (pads_size div 2)" by simp
  then have lt: "pads_index < pads_size div 2"
    by (simp add: word_less_nat_alt)
  from pk have p31: "unat pads_index < 2 ^ 31"
    using unat_half_bound [of pads_size] by simp
  with Suc.prems(3) have c31: "unat child_index < 2 ^ 31" by simp
  have b1: "unat child_index + unat (child_pads_size div 2) < length child_pads"
    using Suc.prems(2,3) pk by linarith
  have b2: "unat pads_index + unat (pads_size div 2) < length pads_values"
    using Suc.prems(1) pk by linarith
  have n: "n = unat (pads_size div 2) - unat (pads_index + 1)"
    using Suc.hyps(2) by (simp add: unat_add_one [OF p31])
  have i: "unat (pads_index + 1) = unat (child_index + 1) + 2"
    using Suc.prems(3) by (simp add: unat_add_one [OF p31] unat_add_one [OF c31])
  show ?case
    unfolding UpdatePaddingAttribute_loop_step [OF lt Suc.prems(3)]
    using b1 b2 Suc.hyps(1) [OF n Suc.prems(1) _ i] Suc.prems(2)
    by simp
qed

lemma UpdatePaddingAttribute_loop_result:
  fixes pads_index child_index :: uint32
  assumes "UpdatePaddingAttribute_loop pads_values pads_size child_pads_size
               pads_index child_index child_pads = Inr r"
    and "unat pads_index = unat child_index + 2"
  shows "length r = length child_pads \<and>
     (\<forall>j < length child_pads.
        r ! j = child_pads ! j
          + (if unat child_index \<le> j \<and> j + 2 < unat (pads_size div 2)
             then pads_values ! (j + 2) else 0)
          + (if unat child_index + unat (child_pads_size div 2) \<le> j \<and>
                j + 2 < unat (child_pads_size div 2) + unat (pads_size div 2)
             then pads_values ! (j - unat (child_pads_size div 2) + 2 + unat (pads_size div 2))
             else 0))"
  using assms
proof (induction "unat (pads_size div 2) - unat pads_index"
    arbitrary: pads_index child_index child_pads)
  case 0
  then have nlt: "\<not> pads_index < pads_size div 2"
    by (simp add: word_less_nat_alt)
  with "0.prems"(1) have "r = child_pads"
    by (simp add: UpdatePaddingAttribute_loop_done)
  moreover from "0.hyps" "0.prems"(2) have "unat (pads_size div 2) \<le> unat child_index + 2"
    by simp
  ultimately show ?case by auto
next
  case (Suc n)
  define c where "c = unat child_index"
  define K where "K = unat (pads_size div 2)"
  define H where "H = unat (child_pads_size div 2)"
  from Suc.hyps(2) have pk: "unat pads_index < K" by (simp add: K_def)
  then have lt: "pads_index < pads_size div 2"
    by (simp add: word_less_nat_alt K_def)
  from pk have p31: "unat pads_index < 2 ^ 31"
    using unat_half_bound [of pads_size] by (simp add: K_def)
  with Suc.prems(2) have c31: "unat child_index < 2 ^ 31" by simp
  have pc: "unat pads_index = c + 2"
    using Suc.prems(2) by (simp add: c_def)
  define cp2 where "cp2 = (child_pads[c := child_pads ! c + pads_values ! (c + 2)])
               [c + H := (child_pads[c := child_pads ! c + pads_values ! (c + 2)]) ! (c + H)
                  + pads_values ! (c + 2 + K)]"
  from Suc.prems(1) have b: "c + H < length child_pads"
    and rec: "UpdatePaddingAttribute_loop pads_values pads_size child_pads_size
             (pads_index + 1) (child_index + 1) cp2 = Inr r"
    unfolding UpdatePaddingAttribute_loop_step [OF lt Suc.prems(2)] cp2_def c_def H_def K_def
      pc [unfolded c_def]
    by (simp_all split: if_splits)
  have n: "n = unat (pads_size div 2) - unat (pads_index + 1)"
    using Suc.hyps(2) by (simp add: unat_add_one [OF p31])
  have i: "unat (pads_index + 1) = unat (child_index + 1) + 2"
    using Suc.prems(2) by (simp add: unat_add_one [OF p31] unat_add_one [OF c31])
  have c1: "unat (child_index + 1) = c + 1"
    by (simp add: unat_add_one [OF c31] c_def)
  note IH = Suc.hyps(1) [OF n rec i, unfolded c1, folded K_def H_def]
  have len: "length cp2 = length child_pads"
    by (simp add: cp2_def)
  have cp2: "cp2 ! j = child_pads ! j + (if j = c then pads_values ! (c + 2) else 0)
                 + (if j = c + H then pads_values ! (c + 2 + K) else 0)"
    if "j < length child_pads" for j
    using that b by (simp add: cp2_def nth_list_update)
  have ck: "c + 2 < K" using pk pc by simp
  show ?case
  proof (intro conjI allI impI)
    show "length r = length child_pads"
      using IH len by simp
  next
    fix j
    assume j: "j < length child_pads"
    then have "r ! j = cp2 ! j
          + (if c + 1 \<le> j \<and> j + 2 < K then pads_values ! (j + 2) else 0)
          + (if c + 1 + H \<le> j \<and> j + 2 < H + K
             then pads_values ! (j - H + 2 + K) else 0)"
      using IH len by simp
    also have "\<dots> = child_pads ! j
          + (if c \<le> j \<and> j + 2 < K then pads_values ! (j + 2) else 0)
          + (if c + H \<le> j \<and> j + 2 < H + K
             then pads_values ! (j - H + 2 + K) else 0)"
      unfolding cp2 [OF j] using ck
      by (cases "j = c"; cases "j = c + H") (auto simp: le_Suc_eq)
    finally show "r ! j = child_pads ! j
          + (if unat child_index \<le> j \<and> j + 2 < unat (pads_size div 2)
             then pads_values ! (j + 2) else 0)
          + (if unat child_index + unat (child_pads_size div 2) \<le> j \<and>
                j + 2 < unat (child_pads_size div 2) + unat (pads_size div 2)
             then pads_values ! (j - unat (child_pads_size div 2) + 2 + unat (pads_size div 2))
             else 0)"
      by (simp add: c_def K_def H_def)
  qed
qed

lemma UpdatePaddingAttribute_total:
  fixes p :: "int64 list"
  assumes len: "length p = 2 * rank"
    and long: "\<forall>a. Attributes target ''pads'' = Some a \<longrightarrow> attr_ints a \<noteq> [] \<longrightarrow>
                 2 * (rank - 2) \<le> length (attr_ints a)"
  shows "\<exists>target'. UpdatePaddingAttribute target p (of_nat (length p)) = Inr target'"
proof -
  define ps :: uint32 where "ps = of_nat (length p)"
  define ex where "ex = existing_pads target ps"
  define K where "K = unat (ps div 2)"
  have Kr: "K \<le> rank"
    using unat_half_of_nat_le [of "length p"] len by (simp add: K_def ps_def)
  have Kp: "2 * K \<le> length p"
    using unat_half_of_nat_le [of "length p"] by (simp add: K_def ps_def)
  have exl: "K - 2 \<le> length ex div 2"
  proof (cases "case Attributes target ''pads'' of None \<Rightarrow> True | Some a \<Rightarrow> attr_ints a = []")
    case True
    then have e: "ex = replicate (unat (ps - 4)) 0"
      by (auto simp: ex_def existing_pads_def split: option.splits)
    show ?thesis
    proof (cases "4 \<le> unat ps")
      case True
      then have "(4 :: uint32) \<le> ps"
        by (simp add: word_le_nat_alt)
      then have "unat (ps - 4) = unat ps - unat (4 :: uint32)"
        by (rule unat_sub)
      then show ?thesis
        by (simp add: e K_def unat_half)
    next
      case False
      then have "K \<le> 1" by (simp add: K_def unat_half)
      then show ?thesis by simp
    qed
  next
    case False
    then obtain a where a: "Attributes target ''pads'' = Some a" "attr_ints a \<noteq> []"
      by (auto split: option.splits)
    then have "ex = attr_ints a"
      by (simp add: ex_def existing_pads_def)
    with long a Kr show ?thesis by fastforce
  qed
  have "unat ((of_nat (length ex) :: uint32) div 2) \<le> length ex div 2"
    by (rule unat_half_of_nat_le)
  with exl have b: "unat (ps div 2) - 2 + unat ((of_nat (length ex) :: uint32) div 2) \<le> length ex"
    unfolding K_def by linarith
  have i: "unat (2 :: uint32) = unat (0 :: uint32) + 2" by simp
  from Kp have a: "2 * unat (ps div 2) \<le> length p" by (simp add: K_def)
  from UpdatePaddingAttribute_loop_total [OF a b i]
  obtain r where "UpdatePaddingAttribute_loop p ps (of_nat (length ex)) 2 0 ex = Inr r"
    by blast
  then show ?thesis
    unfolding UpdatePaddingAttribute_eq ps_def [symmetric] ex_def [symmetric] by simp
qed


section \<open>Facts about the structural edit\<close>

text \<open>
  When the edit of lines 173 to 187 returns, the resulting graph is known in full.
\<close>

lemma fuse_Inr:
  assumes "fuse graph pad_idx pad_node p ps = Inr g'"
  shows "\<exists>child_idx child target_idx target target' child'.
      OutputNodesBegin graph pad_idx = Inr child_idx \<and> GetNode graph child_idx = Some child \<and>
      (if OpType child = ''Cast'' then OutputNodesBegin graph child_idx = Inr target_idx
       else target_idx = child_idx) \<and>
      GetNode graph target_idx = Some target \<and>
      UpdatePaddingAttribute target p ps = Inr target' \<and>
      InputDefs pad_node \<noteq> [] \<and>
      child' = (if child_idx = target_idx then target' else child) \<and>
      InputDefs child' \<noteq> [] \<and>
      (OpType child = ''Cast'' \<longrightarrow> OutputDefs child \<noteq> [] \<and>
          NodeArgShape graph (InputDefs pad_node ! 0) \<noteq> None) \<and>
      g' = graph\<lparr>Nodes := ((Nodes graph)(target_idx \<mapsto> target',
                    child_idx \<mapsto> child'\<lparr>InputDefs := (InputDefs child')[0 := InputDefs pad_node ! 0]\<rparr>))
                    (pad_idx := None),
                 Edges := filter (\<lambda>e. dst_node e \<noteq> pad_idx)
                            (filter (\<lambda>e. src_node e \<noteq> pad_idx) (Edges graph)),
                 NodeArgShape :=
                   (if OpType child = ''Cast''
                    then (NodeArgShape graph)(OutputDefs child ! 0 :=
                            NodeArgShape graph (InputDefs pad_node ! 0))
                    else NodeArgShape graph)\<rparr>"
proof -
  from assms obtain child_idx child target_idx target target' in0 graph3 graph4 where
    ci: "OutputNodesBegin graph pad_idx = Inr child_idx"
    and ch: "deref (GetNode graph child_idx) = Inr child"
    and ti: "(if OpType child = ''Cast'' then OutputNodesBegin graph child_idx
              else Inr child_idx) = Inr target_idx"
    and tg: "deref (GetNode graph target_idx) = Inr target"
    and up: "UpdatePaddingAttribute target p ps = Inr target'"
    and v0: "vector_at (InputDefs pad_node) 0 = Inr in0"
    and rp: "ReplaceNodeInput (RemoveNodeOutputEdges
               (graph\<lparr>Nodes := (Nodes graph)(target_idx \<mapsto> target')\<rparr>) pad_idx)
               child_idx 0 in0 = Inr graph3"
    and g4: "(if OpType child = ''Cast''
           then bindF (vector_at (OutputDefs child) 0) (\<lambda>cast_output_node_arg.
                bindF (deref (NodeArgShape graph3 in0)) (\<lambda>shape.
                  Inr (SetShape graph3 cast_output_node_arg shape)))
           else Inr graph3) = Inr graph4"
    and g': "Inr (RemoveNode graph4 pad_idx) = (Inr g' :: fault + Graph)"
    unfolding fuse_def bindF_eq_Inr Let_def by blast
  define graph2 where "graph2 =
    RemoveNodeOutputEdges (graph\<lparr>Nodes := (Nodes graph)(target_idx \<mapsto> target')\<rparr>) pad_idx"
  define child' where "child' = (if child_idx = target_idx then target' else child)"
  have walk: "if OpType child = ''Cast'' then OutputNodesBegin graph child_idx = Inr target_idx
       else target_idx = child_idx"
    using ti by (auto split: if_splits)
  from v0 have ne: "InputDefs pad_node \<noteq> []" and in0: "in0 = InputDefs pad_node ! 0"
    by (cases "InputDefs pad_node"; simp add: vector_at_def)+
  have g2c: "GetNode graph2 child_idx = Some child'"
    using ch by (simp add: graph2_def RemoveNodeOutputEdges_def GetNode_def child'_def)
  from rp g2c have cne: "InputDefs child' \<noteq> []"
    unfolding graph2_def [symmetric]
    by (cases "InputDefs child'") (simp_all add: ReplaceNodeInput_def)
  with rp g2c have g3: "graph3 = graph2\<lparr>Nodes := (Nodes graph2)(child_idx \<mapsto>
                   child'\<lparr>InputDefs := (InputDefs child')[0 := in0]\<rparr>)\<rparr>"
    unfolding graph2_def [symmetric]
    by (simp add: ReplaceNodeInput_def)
  have sh3: "NodeArgShape graph3 = NodeArgShape graph"
    by (simp add: g3 graph2_def RemoveNodeOutputEdges_def)
  have cast: "OpType child = ''Cast'' \<longrightarrow> OutputDefs child \<noteq> [] \<and>
          NodeArgShape graph in0 \<noteq> None"
    using g4 unfolding sh3
    by (cases "OutputDefs child") (auto simp: bindF_eq_Inr vector_at_def split: if_splits)
  have g4eq: "graph4 = graph3\<lparr>NodeArgShape :=
                   (if OpType child = ''Cast''
                    then (NodeArgShape graph)(OutputDefs child ! 0 := NodeArgShape graph in0)
                    else NodeArgShape graph)\<rparr>"
  proof (cases "OpType child = ''Cast''")
    case True
    with g4 obtain shape where "OutputDefs child \<noteq> []" "NodeArgShape graph in0 = Some shape"
      "graph4 = SetShape graph3 (OutputDefs child ! 0) shape"
      unfolding sh3
      by (cases "OutputDefs child") (auto simp: bindF_eq_Inr vector_at_def split: if_splits)
    with True show ?thesis by (simp add: SetShape_def sh3)
  next
    case False
    with g4 show ?thesis by (simp add: sh3 [symmetric])
  qed
  have final: "g' = graph\<lparr>Nodes := ((Nodes graph)(target_idx \<mapsto> target',
                    child_idx \<mapsto> child'\<lparr>InputDefs := (InputDefs child')[0 := in0]\<rparr>))
                    (pad_idx := None),
                 Edges := filter (\<lambda>e. dst_node e \<noteq> pad_idx)
                            (filter (\<lambda>e. src_node e \<noteq> pad_idx) (Edges graph)),
                 NodeArgShape :=
                   (if OpType child = ''Cast''
                    then (NodeArgShape graph)(OutputDefs child ! 0 := NodeArgShape graph in0)
                    else NodeArgShape graph)\<rparr>"
    using g' unfolding g4eq g3 graph2_def
    by (auto simp: RemoveNode_def RemoveNodeOutputEdges_def)
  from ch have ch': "GetNode graph child_idx = Some child" by simp
  from tg have tg': "GetNode graph target_idx = Some target" by simp
  have "OutputNodesBegin graph pad_idx = Inr child_idx \<and> GetNode graph child_idx = Some child \<and>
      (if OpType child = ''Cast'' then OutputNodesBegin graph child_idx = Inr target_idx
       else target_idx = child_idx) \<and>
      GetNode graph target_idx = Some target \<and>
      UpdatePaddingAttribute target p ps = Inr target' \<and>
      InputDefs pad_node \<noteq> [] \<and>
      child' = (if child_idx = target_idx then target' else child) \<and>
      InputDefs child' \<noteq> [] \<and>
      (OpType child = ''Cast'' \<longrightarrow> OutputDefs child \<noteq> [] \<and>
          NodeArgShape graph (InputDefs pad_node ! 0) \<noteq> None) \<and>
      g' = graph\<lparr>Nodes := ((Nodes graph)(target_idx \<mapsto> target',
                    child_idx \<mapsto> child'\<lparr>InputDefs := (InputDefs child')[0 := InputDefs pad_node ! 0]\<rparr>))
                    (pad_idx := None),
                 Edges := filter (\<lambda>e. dst_node e \<noteq> pad_idx)
                            (filter (\<lambda>e. src_node e \<noteq> pad_idx) (Edges graph)),
                 NodeArgShape :=
                   (if OpType child = ''Cast''
                    then (NodeArgShape graph)(OutputDefs child ! 0 :=
                            NodeArgShape graph (InputDefs pad_node ! 0))
                    else NodeArgShape graph)\<rparr>"
    using ci ch' walk tg' up ne cne cast final child'_def
    unfolding in0 by (intro conjI) assumption+
  then show ?thesis
    by (intro exI)
qed

lemma fuse_result:
  assumes f: "fuse graph pad_idx pad_node p ps = Inr g'"
    and ci: "OutputNodesBegin graph pad_idx = Inr child_idx"
    and ch: "GetNode graph child_idx = Some child"
    and walk: "if OpType child = ''Cast'' then OutputNodesBegin graph child_idx = Inr target_idx
               else target_idx = child_idx"
    and tg: "GetNode graph target_idx = Some target"
  shows "\<exists>target' child'.
      UpdatePaddingAttribute target p ps = Inr target' \<and>
      InputDefs pad_node \<noteq> [] \<and>
      child' = (if child_idx = target_idx then target' else child) \<and>
      InputDefs child' \<noteq> [] \<and>
      (OpType child = ''Cast'' \<longrightarrow> OutputDefs child \<noteq> [] \<and>
          NodeArgShape graph (InputDefs pad_node ! 0) \<noteq> None) \<and>
      g' = graph\<lparr>Nodes := ((Nodes graph)(target_idx \<mapsto> target',
                    child_idx \<mapsto> child'\<lparr>InputDefs := (InputDefs child')[0 := InputDefs pad_node ! 0]\<rparr>))
                    (pad_idx := None),
                 Edges := filter (\<lambda>e. dst_node e \<noteq> pad_idx)
                            (filter (\<lambda>e. src_node e \<noteq> pad_idx) (Edges graph)),
                 NodeArgShape :=
                   (if OpType child = ''Cast''
                    then (NodeArgShape graph)(OutputDefs child ! 0 :=
                            NodeArgShape graph (InputDefs pad_node ! 0))
                    else NodeArgShape graph)\<rparr>"
proof -
  from fuse_Inr [OF f] obtain child_idx2 child2 target_idx2 target2 target' child' where
    a: "OutputNodesBegin graph pad_idx = Inr child_idx2"
    and b: "GetNode graph child_idx2 = Some child2"
    and c: "if OpType child2 = ''Cast'' then OutputNodesBegin graph child_idx2 = Inr target_idx2
       else target_idx2 = child_idx2"
    and d: "GetNode graph target_idx2 = Some target2"
    and r: "UpdatePaddingAttribute target2 p ps = Inr target' \<and>
      InputDefs pad_node \<noteq> [] \<and>
      child' = (if child_idx2 = target_idx2 then target' else child2) \<and>
      InputDefs child' \<noteq> [] \<and>
      (OpType child2 = ''Cast'' \<longrightarrow> OutputDefs child2 \<noteq> [] \<and>
          NodeArgShape graph (InputDefs pad_node ! 0) \<noteq> None) \<and>
      g' = graph\<lparr>Nodes := ((Nodes graph)(target_idx2 \<mapsto> target',
                    child_idx2 \<mapsto> child'\<lparr>InputDefs := (InputDefs child')[0 := InputDefs pad_node ! 0]\<rparr>))
                    (pad_idx := None),
                 Edges := filter (\<lambda>e. dst_node e \<noteq> pad_idx)
                            (filter (\<lambda>e. src_node e \<noteq> pad_idx) (Edges graph)),
                 NodeArgShape :=
                   (if OpType child2 = ''Cast''
                    then (NodeArgShape graph)(OutputDefs child2 ! 0 :=
                            NodeArgShape graph (InputDefs pad_node ! 0))
                    else NodeArgShape graph)\<rparr>"
    by (elim exE conjE) (rule that, assumption+, intro conjI, assumption+)
  from a ci have 1: "child_idx2 = child_idx" by simp
  from b ch 1 have 2: "child2 = child" by simp
  from c walk 1 2 have 3: "target_idx2 = target_idx" by (simp split: if_splits)
  from d tg 3 have 4: "target2 = target" by simp
  from r show ?thesis unfolding 1 2 3 4 by (intro exI)
qed

lemma fuse_total:
  assumes ci: "OutputNodesBegin graph pad_idx = Inr child_idx"
    and ch: "GetNode graph child_idx = Some child"
    and walk: "if OpType child = ''Cast'' then OutputNodesBegin graph child_idx = Inr target_idx
               else target_idx = child_idx"
    and tg: "GetNode graph target_idx = Some target"
    and up: "UpdatePaddingAttribute target p ps = Inr target'"
    and pin: "InputDefs pad_node \<noteq> []"
    and cin: "InputDefs child \<noteq> []"
    and cast: "OpType child = ''Cast'' \<longrightarrow>
                 OutputDefs child \<noteq> [] \<and> NodeArgShape graph (InputDefs pad_node ! 0) \<noteq> None"
  shows "\<exists>graph'. fuse graph pad_idx pad_node p ps = Inr graph'"
proof -
  define graph2 where "graph2 =
    RemoveNodeOutputEdges (graph\<lparr>Nodes := (Nodes graph)(target_idx \<mapsto> target')\<rparr>) pad_idx"
  define child' where "child' = (if child_idx = target_idx then target' else child)"
  have sel: "(if OpType child = ''Cast'' then OutputNodesBegin graph child_idx
              else Inr child_idx) = Inr target_idx"
    using walk by (simp split: if_splits)
  have v0: "vector_at (InputDefs pad_node) 0 = Inr (InputDefs pad_node ! 0)"
    using pin by (cases "InputDefs pad_node") (simp_all add: vector_at_def)
  have g2c: "GetNode graph2 child_idx = Some child'"
    using ch by (simp add: graph2_def RemoveNodeOutputEdges_def GetNode_def child'_def)
  have ti: "InputDefs target' = InputDefs target"
    using UpdatePaddingAttribute_Inr [OF up] by auto
  have cin': "InputDefs child' \<noteq> []"
    using cin ti ch tg by (auto simp: child'_def)
  define graph3 where "graph3 = graph2\<lparr>Nodes := (Nodes graph2)(child_idx \<mapsto>
                   child'\<lparr>InputDefs := (InputDefs child')[0 := InputDefs pad_node ! 0]\<rparr>)\<rparr>"
  have rp: "ReplaceNodeInput graph2 child_idx 0 (InputDefs pad_node ! 0) = Inr graph3"
    using g2c cin' by (simp add: ReplaceNodeInput_def graph3_def)
  have sh3: "NodeArgShape graph3 = NodeArgShape graph"
    by (simp add: graph3_def graph2_def RemoveNodeOutputEdges_def)
  have "\<exists>graph4. (if OpType child = ''Cast''
           then bindF (vector_at (OutputDefs child) 0) (\<lambda>cast_output_node_arg.
                bindF (deref (NodeArgShape graph3 (InputDefs pad_node ! 0))) (\<lambda>shape.
                  Inr (SetShape graph3 cast_output_node_arg shape)))
           else Inr graph3) = Inr graph4"
  proof (cases "OpType child = ''Cast''")
    case True
    with cast obtain shape where "OutputDefs child \<noteq> []"
      "NodeArgShape graph (InputDefs pad_node ! 0) = Some shape" by auto
    with True show ?thesis
      by (cases "OutputDefs child") (simp_all add: vector_at_def sh3)
  next
    case False
    then show ?thesis by simp
  qed
  then obtain graph4 where g4: "(if OpType child = ''Cast''
           then bindF (vector_at (OutputDefs child) 0) (\<lambda>cast_output_node_arg.
                bindF (deref (NodeArgShape graph3 (InputDefs pad_node ! 0))) (\<lambda>shape.
                  Inr (SetShape graph3 cast_output_node_arg shape)))
           else Inr graph3) = Inr graph4"
    by blast
  have tg': "deref (GetNode graph target_idx) = Inr target"
    using tg by simp
  have ch': "deref (GetNode graph child_idx) = Inr child"
    using ch by simp
  have "fuse graph pad_idx pad_node p ps = Inr (RemoveNode graph4 pad_idx)"
    unfolding fuse_def ci bindF_Inr ch' sel tg' up Let_def graph2_def [symmetric] v0 rp g4
    by (rule refl)
  then show ?thesis by blast
qed

lemma Apply_Inr:
  assumes "GetNode graph pad_idx = Some pad_node"
    and "resolve_pads_values graph pad_node = Inr pads_values"
    and "non_spatial_padding pads_values (of_nat (length pads_values)) = Inr False"
    and "\<not> negative_padding pads_values"
    and "Apply graph pad_idx rule_effect = Inr (graph', rule_effect')"
  shows "fuse graph pad_idx pad_node pads_values (of_nat (length pads_values)) = Inr graph' \<and>
         rule_effect' = kRemovedCurrentNode"
  using assms by (auto simp: Apply_def Let_def bindF_eq_Inr)

lemma OutputNodesBegin_filter:
  assumes "OutputNodesBegin graph i = Inr d" and "i \<noteq> pad_idx" and "d \<noteq> pad_idx"
    and "Edges graph' = filter (\<lambda>e. dst_node e \<noteq> pad_idx)
                            (filter (\<lambda>e. src_node e \<noteq> pad_idx) (Edges graph))"
  shows "OutputNodesBegin graph' i = Inr d"
proof -
  have "(case filter (\<lambda>e. src_node e = i) es of [] \<Rightarrow> Inl NoOutputEdge | e # _ \<Rightarrow> Inr (dst_node e)) = Inr d \<Longrightarrow>
        (case filter (\<lambda>e. src_node e = i) (filter (\<lambda>e. dst_node e \<noteq> pad_idx)
                 (filter (\<lambda>e. src_node e \<noteq> pad_idx) es)) of
           [] \<Rightarrow> Inl NoOutputEdge | e # _ \<Rightarrow> Inr (dst_node e)) = Inr d" for es
    using assms(2,3) by (induction es) (auto split: if_splits)
  with assms(1,4) show ?thesis
    by (simp add: OutputNodesBegin_def GetOutputEdges_def)
qed

lemma Apply_accesses_total:
  assumes m: "SatisfyCondition graph pad_idx = Inr True"
    and node: "GetNode graph pad_idx = Some pad_node"
    and len: "length (pad_sequence graph pad_node) = 2 * rank" and r2: "2 \<le> rank"
    and long: "\<forall>a. Attributes target ''pads'' = Some a \<longrightarrow> attr_ints a \<noteq> [] \<longrightarrow>
                 2 * (rank - 2) \<le> length (attr_ints a)"
  shows "resolve_pads_values graph pad_node = Inr (pad_sequence graph pad_node) \<and>
         (\<exists>b. non_spatial_padding (pad_sequence graph pad_node)
                 (of_nat (length (pad_sequence graph pad_node))) = Inr b) \<and>
         (\<exists>target'. UpdatePaddingAttribute target (pad_sequence graph pad_node)
                 (of_nat (length (pad_sequence graph pad_node))) = Inr target')"
proof -
  from SatisfyCondition_True [OF m] node
  have c: "constant_inputs_ok graph pad_node = Inr True" by auto
  from len r2 have ne: "pad_sequence graph pad_node \<noteq> []" by auto
  from len r2 have l3: "3 \<le> length (pad_sequence graph pad_node)" by simp
  show ?thesis
    using resolve_pads_values_pad_sequence [OF c ne] non_spatial_padding_total [OF l3]
      UpdatePaddingAttribute_total [OF len long]
    by blast
qed

lemma Apply_total:
  assumes m: "SatisfyCondition graph pad_idx = Inr True"
    and node: "GetNode graph pad_idx = Some pad_node"
    and len: "length (pad_sequence graph pad_node) = 2 * rank" and r2: "2 \<le> rank"
    and ci: "OutputNodesBegin graph pad_idx = Inr child_idx"
    and ch: "GetNode graph child_idx = Some child"
    and walk: "if OpType child = ''Cast'' then OutputNodesBegin graph child_idx = Inr target_idx
               else target_idx = child_idx"
    and tg: "GetNode graph target_idx = Some target"
    and long: "\<forall>a. Attributes target ''pads'' = Some a \<longrightarrow> attr_ints a \<noteq> [] \<longrightarrow>
                 2 * (rank - 2) \<le> length (attr_ints a)"
    and pin: "InputDefs pad_node \<noteq> []"
    and cin: "InputDefs child \<noteq> []"
    and cast: "OpType child = ''Cast'' \<longrightarrow>
                 OutputDefs child \<noteq> [] \<and> NodeArgShape graph (InputDefs pad_node ! 0) \<noteq> None"
  shows "\<exists>graph' rule_effect'. Apply graph pad_idx rule_effect = Inr (graph', rule_effect')"
proof -
  define p where "p = pad_sequence graph pad_node"
  from Apply_accesses_total [OF m node len r2 long] obtain b target' where
    r: "resolve_pads_values graph pad_node = Inr p"
    and g: "non_spatial_padding p (of_nat (length p)) = Inr b"
    and u: "UpdatePaddingAttribute target p (of_nat (length p)) = Inr target'"
    unfolding p_def by blast
  from fuse_total [OF ci ch walk tg u pin cin cast] obtain graph' where
    f: "fuse graph pad_idx pad_node p (of_nat (length p)) = Inr graph'"
    by blast
  show ?thesis
    using node r g f by (simp add: Apply_def Let_def)
qed


section \<open>Evaluating the examples\<close>

text \<open>
  The example graphs are evaluated by unfolding the definitions.
\<close>

lemmas host_defs = GetNode_def GetOutputEdges_def GetOutputEdgesCount_def OutputNodesBegin_def
  NodeProducesGraphOutput_def GetConstantInitializer_def NodeArgIsConstant_def
  IsSupportedOptypeVersionAndDomain_def kOnnxDomain_def AddAttribute_def
  RemoveNodeOutputEdges_def ReplaceNodeInput_def SetShape_def RemoveNode_def

lemmas match_defs = SatisfyCondition_def consumer_ok_def constant_inputs_ok_def
  VerifyNotCastChild_def float_ne_zero_def

lemmas example_defs = example_pad_def example_conv_def example_average_pool_def
  example_graph_def example_pad13_def example_cast_def example_cast_graph_def example_shape_def

lemmas apply_defs = Apply_def fuse_def resolve_pads_values_def non_spatial_padding_def
  negative_padding_def UpdatePaddingAttribute_eq existing_pads_def map_at_def
  UpdatePaddingAttribute_loop.simps repeated_Get_def repeated_Set_def

lemma spec_merged_pads_example:
  "spec_merged_pads [0, 0, 0, 0] [0, 0, 1, 1, 0, 0, 1, 1] 4 = [1, 1, 1, 1]"
  by (simp add: spec_merged_pads_def upt_rec)

section \<open>The claims of the specification\<close>

text \<open>
  Claim C1. When \<open>Apply\<close> succeeds on a pad node with pad-value sequence \<open>p\<close> of length
  \<open>2 * rank\<close>, the \<open>pads\<close> attribute of the target node (the consumer, or the consumer of the
  cast in between) afterwards holds its prior value (an all-zero sequence of \<open>2 * (rank - 2)\<close>
  entries if the attribute was absent or empty) with the begin-side entries
  \<open>p[2 .. rank - 1]\<close> and the mirrored end-side entries \<open>p[rank + 2 .. 2 * rank - 1]\<close> added
  entry-wise; and if the target is an AveragePool, its \<open>count_include_pad\<close> attribute is 1.
  The counts are those of a repeated field, below \<open>2 ^ 32\<close>.
\<close>

theorem Apply_merges_pads:
  fixes pads_values :: "int64 list"
  assumes node: "GetNode graph pad_idx = Some pad_node"
    and pads: "resolve_pads_values graph pad_node = Inr pads_values"
    and spatial: "non_spatial_padding pads_values (of_nat (length pads_values)) = Inr False"
    and nonneg: "\<not> negative_padding pads_values"
    and ap: "Apply graph pad_idx rule_effect = Inr (graph', rule_effect')"
    and rank: "length pads_values = 2 * rank" "2 * rank < 2 ^ 32"
    and child: "OutputNodesBegin graph pad_idx = Inr child_idx" "GetNode graph child_idx = Some child"
    and walk: "if OpType child = ''Cast'' then OutputNodesBegin graph child_idx = Inr target_idx
               else target_idx = child_idx"
    and target: "GetNode graph target_idx = Some target" "target_idx \<noteq> pad_idx"
    and old: "old = (case Attributes target ''pads'' of
                       None \<Rightarrow> replicate (2 * (rank - 2)) 0
                     | Some a \<Rightarrow> if attr_ints a = [] then replicate (2 * (rank - 2)) 0
                                 else attr_ints a)"
    and oldlen: "length old < 2 ^ 32"
  shows "\<exists>target'. GetNode graph' target_idx = Some target' \<and>
           Attributes target' ''pads'' = Some (AttrInts (spec_merged_pads old pads_values rank)) \<and>
           (OpType target = ''AveragePool'' \<longrightarrow>
              Attributes target' ''count_include_pad'' = Some (AttrInt 1))"
proof -
  define ps :: uint32 where "ps = of_nat (length pads_values)"
  have len32: "length pads_values < 2 ^ 32"
    using rank by simp
  have K: "unat (ps div 2) = rank"
    unfolding ps_def unat_half unat_of_nat_uint32 [OF len32] using rank(1) by simp
  from non_spatial_padding_False [OF spatial] have r2: "2 \<le> rank"
    using K rank(1) unfolding ps_def by linarith
  have m4: "unat (ps - 4) = 2 * (rank - 2)"
    unfolding ps_def using pads_size_minus_4 [OF len32] rank(1) r2 by simp
  have ex: "existing_pads target ps = old"
    unfolding existing_pads_def m4 old by simp
  have H: "unat ((of_nat (length old) :: uint32) div 2) = length old div 2"
    unfolding unat_half unat_of_nat_uint32 [OF oldlen] by simp
  from Apply_Inr [OF node pads spatial nonneg ap]
  have f: "fuse graph pad_idx pad_node pads_values ps = Inr graph'"
    by (simp add: ps_def)
  from fuse_result [OF f child walk target(1)] obtain target' child' where
    R: "UpdatePaddingAttribute target pads_values ps = Inr target' \<and>
      InputDefs pad_node \<noteq> [] \<and>
      child' = (if child_idx = target_idx then target' else child) \<and>
      InputDefs child' \<noteq> [] \<and>
      (OpType child = ''Cast'' \<longrightarrow> OutputDefs child \<noteq> [] \<and>
          NodeArgShape graph (InputDefs pad_node ! 0) \<noteq> None) \<and>
      graph' = graph\<lparr>Nodes := ((Nodes graph)(target_idx \<mapsto> target',
                    child_idx \<mapsto> child'\<lparr>InputDefs := (InputDefs child')[0 := InputDefs pad_node ! 0]\<rparr>))
                    (pad_idx := None),
                 Edges := filter (\<lambda>e. dst_node e \<noteq> pad_idx)
                            (filter (\<lambda>e. src_node e \<noteq> pad_idx) (Edges graph)),
                 NodeArgShape :=
                   (if OpType child = ''Cast''
                    then (NodeArgShape graph)(OutputDefs child ! 0 :=
                            NodeArgShape graph (InputDefs pad_node ! 0))
                    else NodeArgShape graph)\<rparr>"
    by (elim exE) (rule that)
  from R have up: "UpdatePaddingAttribute target pads_values ps = Inr target'"
    and c': "child' = (if child_idx = target_idx then target' else child)"
    by blast+
  from R have g': "Nodes graph' = ((Nodes graph)(target_idx \<mapsto> target',
                    child_idx \<mapsto> child'\<lparr>InputDefs := (InputDefs child')[0 := InputDefs pad_node ! 0]\<rparr>))
                    (pad_idx := None)"
    by simp
  from UpdatePaddingAttribute_Inr [OF up] obtain new where
    loop: "UpdatePaddingAttribute_loop pads_values ps (of_nat (length old)) 2 0 old = Inr new"
    and t': "target' = target\<lparr>Attributes :=
                      (if OpType target = ''AveragePool''
                       then (Attributes target)(''pads'' \<mapsto> AttrInts new, ''count_include_pad'' \<mapsto> AttrInt 1)
                       else (Attributes target)(''pads'' \<mapsto> AttrInts new))\<rparr>"
    unfolding ex by blast
  have "unat (2 :: uint32) = unat (0 :: uint32) + 2" by simp
  from UpdatePaddingAttribute_loop_result [OF loop this]
  have nl: "length new = length old"
    and nj: "\<And>j. j < length old \<Longrightarrow> new ! j = old ! j
          + (if j + 2 < rank then pads_values ! (j + 2) else 0)
          + (if length old div 2 \<le> j \<and> j + 2 < length old div 2 + rank
             then pads_values ! (j - length old div 2 + 2 + rank) else 0)"
    unfolding K H by simp_all
  have new: "new = spec_merged_pads old pads_values rank"
  proof (rule nth_equalityI)
    show "length new = length (spec_merged_pads old pads_values rank)"
      by (simp add: nl spec_merged_pads_def)
  next
    fix j
    assume "j < length new"
    then have j: "j < length old" by (simp add: nl)
    have a: "j + 2 < rank \<longleftrightarrow> j < rank - 2" by linarith
    have b: "length old div 2 \<le> j \<and> j + 2 < length old div 2 + rank \<longleftrightarrow>
             length old div 2 \<le> j \<and> j - length old div 2 < rank - 2"
      by linarith
    have c: "length old div 2 \<le> j \<Longrightarrow>
             j - length old div 2 + 2 + rank = rank + 2 + (j - length old div 2)"
      by simp
    show "new ! j = spec_merged_pads old pads_values rank ! j"
      unfolding nj [OF j] a b using j c
      by (simp add: spec_merged_pads_def add.commute)
  qed
  have tn: "GetNode graph' target_idx =
            Some (if child_idx = target_idx
                  then target'\<lparr>InputDefs := (InputDefs target')[0 := InputDefs pad_node ! 0]\<rparr>
                  else target')"
    using target(2) by (simp add: GetNode_def g' c')
  have at: "Attributes (if child_idx = target_idx
                  then target'\<lparr>InputDefs := (InputDefs target')[0 := InputDefs pad_node ! 0]\<rparr>
                  else target') = Attributes target'"
    by simp
  have p1: "Attributes target' ''pads'' = Some (AttrInts (spec_merged_pads old pads_values rank))"
    by (simp add: t' new)
  have p2: "OpType target = ''AveragePool'' \<longrightarrow>
              Attributes target' ''count_include_pad'' = Some (AttrInt 1)"
    by (simp add: t')
  from tn at p1 p2 show ?thesis by metis
qed

text \<open>
  The two examples of the specification: \<open>Pad(pads = [0, 0, 1, 1, 0, 0, 1, 1])\<close> into
  \<open>Conv(pads = [0, 0, 0, 0])\<close>, and into
  \<open>AveragePool(pads = [0, 0, 0, 0], count_include_pad = 0)\<close>; both end with
  \<open>pads = [1, 1, 1, 1]\<close>.
\<close>

theorem Apply_merges_pads_witness:
  "(\<exists>graph' rule_effect' target'.
      Apply (example_graph (example_pad [0, 0, 1, 1, 0, 0, 1, 1]) (example_conv [0, 0, 0, 0])) 0 kNone
        = Inr (graph', rule_effect') \<and>
      GetNode graph' 1 = Some target' \<and>
      Attributes target' ''pads'' = Some (AttrInts [1, 1, 1, 1])) \<and>
   (\<exists>graph' rule_effect' target'.
      Apply (example_graph (example_pad [0, 0, 1, 1, 0, 0, 1, 1])
               (example_average_pool [0, 0, 0, 0] 0)) 0 kNone
        = Inr (graph', rule_effect') \<and>
      GetNode graph' 1 = Some target' \<and>
      Attributes target' ''pads'' = Some (AttrInts [1, 1, 1, 1]) \<and>
      Attributes target' ''count_include_pad'' = Some (AttrInt 1))"
proof -
  let ?p = "[0, 0, 1, 1, 0, 0, 1, 1 :: int64]"
  let ?n = "example_pad ?p"
  have spatial: "non_spatial_padding ?p (of_nat (length ?p)) = Inr False"
    by (simp add: non_spatial_padding_def)
  have nonneg: "\<not> negative_padding ?p"
    by (simp add: negative_padding_def)
  have rank: "length ?p = 2 * 4" "2 * 4 < (2 :: nat) ^ 32"
    by simp_all
  have oldlen: "length [0, 0, 0, 0 :: int64] < 2 ^ 32"
    by simp
  have one: "(1 :: nat) \<noteq> 0" by simp
  have m: "spec_merged_pads [0, 0, 0, 0] ?p 4 = [1, 1, 1, 1]"
    by (simp add: spec_merged_pads_def upt_rec)
  have 1: "\<exists>graph' rule_effect' target'.
      Apply (example_graph ?n (example_conv [0, 0, 0, 0])) 0 kNone = Inr (graph', rule_effect') \<and>
      GetNode graph' 1 = Some target' \<and>
      Attributes target' ''pads'' = Some (AttrInts [1, 1, 1, 1])"
  proof -
    let ?t = "example_conv [0, 0, 0, 0]"
    let ?g = "example_graph ?n ?t"
    have node: "GetNode ?g 0 = Some ?n"
      and child: "OutputNodesBegin ?g 0 = Inr 1" "GetNode ?g 1 = Some ?t"
      and walk: "if OpType ?t = ''Cast'' then OutputNodesBegin ?g 1 = Inr 1 else 1 = (1 :: nat)"
      by (simp_all add: host_defs example_defs)
    have pads: "resolve_pads_values ?g ?n = Inr ?p"
      by (simp add: resolve_pads_values_def map_at_def example_defs)
    have old: "[0, 0, 0, 0] = (case Attributes ?t ''pads'' of
                       None \<Rightarrow> replicate (2 * (4 - 2)) 0
                     | Some a \<Rightarrow> if attr_ints a = [] then replicate (2 * (4 - 2)) 0
                                 else attr_ints a)"
      by (simp add: example_defs)
    obtain graph' rule_effect' where ap: "Apply ?g 0 kNone = Inr (graph', rule_effect')"
      by (simp add: apply_defs host_defs example_defs)
    from Apply_merges_pads [OF node pads spatial nonneg ap rank child walk child(2) one old oldlen]
      ap show ?thesis
      unfolding m by blast
  qed
  have 2: "\<exists>graph' rule_effect' target'.
      Apply (example_graph ?n (example_average_pool [0, 0, 0, 0] 0)) 0 kNone
        = Inr (graph', rule_effect') \<and>
      GetNode graph' 1 = Some target' \<and>
      Attributes target' ''pads'' = Some (AttrInts [1, 1, 1, 1]) \<and>
      Attributes target' ''count_include_pad'' = Some (AttrInt 1)"
  proof -
    let ?t = "example_average_pool [0, 0, 0, 0] 0"
    let ?g = "example_graph ?n ?t"
    have node: "GetNode ?g 0 = Some ?n"
      and child: "OutputNodesBegin ?g 0 = Inr 1" "GetNode ?g 1 = Some ?t"
      and walk: "if OpType ?t = ''Cast'' then OutputNodesBegin ?g 1 = Inr 1 else 1 = (1 :: nat)"
      and avg: "OpType ?t = ''AveragePool''"
      by (simp_all add: host_defs example_defs)
    have pads: "resolve_pads_values ?g ?n = Inr ?p"
      by (simp add: resolve_pads_values_def map_at_def example_defs)
    have old: "[0, 0, 0, 0] = (case Attributes ?t ''pads'' of
                       None \<Rightarrow> replicate (2 * (4 - 2)) 0
                     | Some a \<Rightarrow> if attr_ints a = [] then replicate (2 * (4 - 2)) 0
                                 else attr_ints a)"
      by (simp add: example_defs)
    obtain graph' rule_effect' where ap: "Apply ?g 0 kNone = Inr (graph', rule_effect')"
      by (simp add: apply_defs host_defs example_defs)
    from Apply_merges_pads [OF node pads spatial nonneg ap rank child walk child(2) one old oldlen]
      ap avg show ?thesis
      unfolding m by blast
  qed
  from 1 2 show ?thesis by (rule conjI)
qed

text \<open>
  Claim C2. For every pad node whose resolved pad-value sequence has a nonzero entry at
  index 0, at index 1 or at their mirrored end-half counterparts (\<open>pads_size / 2\<close> and
  \<open>pads_size / 2 + 1\<close>, with \<open>pads_size\<close> the \<^verbatim>\<open>uint32_t\<close> count of the sequence), or a
  negative entry anywhere, \<open>Apply\<close> returns normally with the graph as it was and the rewrite
  effect as the caller passed it (so \<open>kNone\<close> stays \<open>kNone\<close>).
\<close>

theorem Apply_guard_no_change:
  fixes pads_values :: "int64 list"
  assumes node: "GetNode graph pad_idx = Some pad_node"
    and pads: "resolve_pads_values graph pad_node = Inr pads_values"
    and bad: "(\<exists>i \<in> {0, 1, unat ((of_nat (length pads_values) :: uint32) div 2),
                      unat ((of_nat (length pads_values) :: uint32) div 2) + 1}.
                 i < length pads_values \<and> pads_values ! i \<noteq> 0) \<or>
              (\<exists>v \<in> set pads_values. sint v < 0)"
  shows "Apply graph pad_idx rule_effect = Inr (graph, rule_effect)"
proof -
  from bad obtain b where b: "non_spatial_padding pads_values (of_nat (length pads_values)) = Inr b"
    and c: "b \<or> negative_padding pads_values"
    using non_spatial_padding_nonzero [of pads_values]
      non_spatial_padding_negative_total [of pads_values]
    by (auto simp: negative_padding_def list_ex_iff)
  then show ?thesis
    using node pads by (auto simp: Apply_def Let_def)
qed

text \<open>
  A pad sequence with a negative end-side entry leaves the graph as it was.
\<close>

theorem Apply_guard_no_change_witness:
  "resolve_pads_values (example_graph (example_pad [0, 0, 1, 1, 0, 0, - 1, 1]) (example_conv [0, 0, 0, 0]))
      (example_pad [0, 0, 1, 1, 0, 0, - 1, 1]) = Inr [0, 0, 1, 1, 0, 0, - 1, 1] \<and>
   (\<exists>v \<in> set [0, 0, 1, 1, 0, 0, - 1, 1 :: int64]. sint v < 0) \<and>
   Apply (example_graph (example_pad [0, 0, 1, 1, 0, 0, - 1, 1]) (example_conv [0, 0, 0, 0])) 0 kNone =
     Inr (example_graph (example_pad [0, 0, 1, 1, 0, 0, - 1, 1]) (example_conv [0, 0, 0, 0]), kNone)"
proof -
  let ?p = "[0, 0, 1, 1, 0, 0, - 1, 1 :: int64]"
  let ?n = "example_pad ?p"
  let ?g = "example_graph ?n (example_conv [0, 0, 0, 0])"
  have node: "GetNode ?g 0 = Some ?n"
    by (simp add: host_defs example_defs)
  have pads: "resolve_pads_values ?g ?n = Inr ?p"
    by (simp add: resolve_pads_values_def map_at_def example_defs)
  have neg: "\<exists>v \<in> set ?p. sint v < 0"
    by simp
  then have bad: "(\<exists>i \<in> {0, 1, unat ((of_nat (length ?p) :: uint32) div 2),
                      unat ((of_nat (length ?p) :: uint32) div 2) + 1}.
                 i < length ?p \<and> ?p ! i \<noteq> 0) \<or>
              (\<exists>v \<in> set ?p. sint v < 0)"
    by (rule disjI2)
  from Apply_guard_no_change [OF node pads bad, of kNone] pads neg show ?thesis
    by blast
qed

text \<open>
  Claim C3. When \<open>Apply\<close> succeeds on a pad node whose pad values pass the spatial and the
  non-negative guard, and whose consumer is another node, then afterwards the pad node's index
  no longer resolves to a node, no edge starts or ends at it, input slot 0 of the immediate
  consumer references the pad node's own data input (input 0), and the reported effect is
  \<open>kRemovedCurrentNode\<close>.
\<close>

theorem Apply_removes_pad_node:
  assumes node: "GetNode graph pad_idx = Some pad_node"
    and pads: "resolve_pads_values graph pad_node = Inr pads_values"
    and spatial: "non_spatial_padding pads_values (of_nat (length pads_values)) = Inr False"
    and nonneg: "\<not> negative_padding pads_values"
    and ap: "Apply graph pad_idx rule_effect = Inr (graph', rule_effect')"
    and child: "OutputNodesBegin graph pad_idx = Inr child_idx" "child_idx \<noteq> pad_idx"
  shows "GetNode graph' pad_idx = None \<and>
         (\<forall>e \<in> set (Edges graph'). src_node e \<noteq> pad_idx \<and> dst_node e \<noteq> pad_idx) \<and>
         rule_effect' = kRemovedCurrentNode \<and>
         InputDefs pad_node \<noteq> [] \<and>
         (\<exists>child'. GetNode graph' child_idx = Some child' \<and> InputDefs child' \<noteq> [] \<and>
                    InputDefs child' ! 0 = InputDefs pad_node ! 0)"
proof -
  from Apply_Inr [OF node pads spatial nonneg ap]
  have f: "fuse graph pad_idx pad_node pads_values (of_nat (length pads_values)) = Inr graph'"
    and e: "rule_effect' = kRemovedCurrentNode" by simp_all
  from fuse_Inr [OF f] obtain child_idx2 child target_idx target target' child' where
    F: "OutputNodesBegin graph pad_idx = Inr child_idx2 \<and> GetNode graph child_idx2 = Some child \<and>
      (if OpType child = ''Cast'' then OutputNodesBegin graph child_idx2 = Inr target_idx
       else target_idx = child_idx2) \<and>
      GetNode graph target_idx = Some target \<and>
      UpdatePaddingAttribute target pads_values (of_nat (length pads_values)) = Inr target' \<and>
      InputDefs pad_node \<noteq> [] \<and>
      child' = (if child_idx2 = target_idx then target' else child) \<and>
      InputDefs child' \<noteq> [] \<and>
      (OpType child = ''Cast'' \<longrightarrow> OutputDefs child \<noteq> [] \<and>
          NodeArgShape graph (InputDefs pad_node ! 0) \<noteq> None) \<and>
      graph' = graph\<lparr>Nodes := ((Nodes graph)(target_idx \<mapsto> target',
                    child_idx2 \<mapsto> child'\<lparr>InputDefs := (InputDefs child')[0 := InputDefs pad_node ! 0]\<rparr>))
                    (pad_idx := None),
                 Edges := filter (\<lambda>e. dst_node e \<noteq> pad_idx)
                            (filter (\<lambda>e. src_node e \<noteq> pad_idx) (Edges graph)),
                 NodeArgShape :=
                   (if OpType child = ''Cast''
                    then (NodeArgShape graph)(OutputDefs child ! 0 :=
                            NodeArgShape graph (InputDefs pad_node ! 0))
                    else NodeArgShape graph)\<rparr>"
    by (elim exE) (rule that)
  from F child(1) have c2: "child_idx2 = child_idx" by simp
  from F have ne: "InputDefs pad_node \<noteq> []" and cne: "InputDefs child' \<noteq> []"
    by blast+
  from F have g2: "graph' = graph\<lparr>Nodes := ((Nodes graph)(target_idx \<mapsto> target',
                    child_idx2 \<mapsto> child'\<lparr>InputDefs := (InputDefs child')[0 := InputDefs pad_node ! 0]\<rparr>))
                    (pad_idx := None),
                 Edges := filter (\<lambda>e. dst_node e \<noteq> pad_idx)
                            (filter (\<lambda>e. src_node e \<noteq> pad_idx) (Edges graph)),
                 NodeArgShape :=
                   (if OpType child = ''Cast''
                    then (NodeArgShape graph)(OutputDefs child ! 0 :=
                            NodeArgShape graph (InputDefs pad_node ! 0))
                    else NodeArgShape graph)\<rparr>"
    by blast
  note g' = g2 [unfolded c2]
  have 1: "GetNode graph' pad_idx = None"
    by (simp add: g' GetNode_def)
  have 2: "\<forall>e \<in> set (Edges graph'). src_node e \<noteq> pad_idx \<and> dst_node e \<noteq> pad_idx"
    by (simp add: g')
  have 3: "GetNode graph' child_idx = Some (child'\<lparr>InputDefs := (InputDefs child')[0 := InputDefs pad_node ! 0]\<rparr>)"
    using child(2) by (simp add: g' GetNode_def)
  have 4: "InputDefs (child'\<lparr>InputDefs := (InputDefs child')[0 := InputDefs pad_node ! 0]\<rparr>) ! 0
             = InputDefs pad_node ! 0"
    using cne by simp
  from 1 2 e ne 3 4 cne show ?thesis by auto
qed

text \<open>
  Pad in front of Conv: the pad node is gone and the convolution reads \<open>X\<close>.
\<close>

theorem Apply_removes_pad_node_witness:
  "\<exists>graph' rule_effect'.
     Apply (example_graph (example_pad [0, 0, 1, 1, 0, 0, 1, 1]) (example_conv [0, 0, 0, 0])) 0 kNone
       = Inr (graph', rule_effect') \<and>
     GetNode graph' 0 = None \<and> rule_effect' = kRemovedCurrentNode \<and>
     (\<exists>child'. GetNode graph' 1 = Some child' \<and> InputDefs child' ! 0 = ''X'')"
proof -
  let ?p = "[0, 0, 1, 1, 0, 0, 1, 1 :: int64]"
  let ?n = "example_pad ?p"
  let ?g = "example_graph ?n (example_conv [0, 0, 0, 0])"
  have node: "GetNode ?g 0 = Some ?n"
    by (simp add: host_defs example_defs)
  have pads: "resolve_pads_values ?g ?n = Inr ?p"
    by (simp add: resolve_pads_values_def map_at_def example_defs)
  have spatial: "non_spatial_padding ?p (of_nat (length ?p)) = Inr False"
    by (simp add: non_spatial_padding_def)
  have nonneg: "\<not> negative_padding ?p"
    by (simp add: negative_padding_def)
  have child: "OutputNodesBegin ?g 0 = Inr 1" "(1 :: nat) \<noteq> 0"
    by (simp_all add: host_defs example_defs)
  obtain graph' rule_effect' where ap: "Apply ?g 0 kNone = Inr (graph', rule_effect')"
    by (simp add: apply_defs host_defs example_defs)
  have x: "InputDefs ?n ! 0 = ''X''"
    by (simp add: example_defs)
  from Apply_removes_pad_node [OF node pads spatial nonneg ap child] ap x show ?thesis
    by auto
qed

text \<open>
  Claim C4 does not hold as stated. The match predicate does not read the pad values: on
  \<open>Pad(pads = [1, 0, 0, 0, 0, 0, 0, 0])\<close>, whose batch entry is nonzero, in front of a
  convolution it returns true.
\<close>

theorem SatisfyCondition_ignores_pad_values:
  "SatisfyCondition (example_graph (example_pad [1, 0, 0, 0, 0, 0, 0, 0]) (example_conv [0, 0, 0, 0])) 0
     = Inr True \<and>
   resolve_pads_values (example_graph (example_pad [1, 0, 0, 0, 0, 0, 0, 0]) (example_conv [0, 0, 0, 0]))
     (example_pad [1, 0, 0, 0, 0, 0, 0, 0]) = Inr [1, 0, 0, 0, 0, 0, 0, 0] \<and>
   [1, 0, 0, 0, 0, 0, 0, 0 :: int64] ! 0 \<noteq> 0"
  by (simp add: match_defs host_defs example_defs resolve_pads_values_def map_at_def)

text \<open>
  Claim C4, as the code has it. For every pad node whose pad-value sequence has a nonzero
  entry in a batch or channel position (index 0, 1 or their mirrored end-half counterparts),
  the rewrite is rejected by \<open>Apply\<close>, before any mutation of the graph: it returns with the
  graph and the effect unchanged. The match predicate itself may return true on such a node.
\<close>

theorem Apply_rejects_non_spatial_padding:
  fixes pads_values :: "int64 list"
  assumes node: "GetNode graph pad_idx = Some pad_node"
    and pads: "resolve_pads_values graph pad_node = Inr pads_values"
    and bad: "\<exists>i \<in> {0, 1, unat ((of_nat (length pads_values) :: uint32) div 2),
                      unat ((of_nat (length pads_values) :: uint32) div 2) + 1}.
                 i < length pads_values \<and> pads_values ! i \<noteq> 0"
  shows "Apply graph pad_idx rule_effect = Inr (graph, rule_effect)"
proof -
  from bad have "non_spatial_padding pads_values (of_nat (length pads_values)) = Inr True"
    by (rule non_spatial_padding_nonzero)
  then show ?thesis
    using node pads by (simp add: Apply_def Let_def)
qed

text \<open>
  The accepted pad node with a nonzero batch entry is left in place by \<open>Apply\<close>.
\<close>

theorem Apply_rejects_non_spatial_padding_witness:
  "SatisfyCondition (example_graph (example_pad [1, 0, 0, 0, 0, 0, 0, 0]) (example_conv [0, 0, 0, 0])) 0
     = Inr True \<and>
   Apply (example_graph (example_pad [1, 0, 0, 0, 0, 0, 0, 0]) (example_conv [0, 0, 0, 0])) 0 kNone =
     Inr (example_graph (example_pad [1, 0, 0, 0, 0, 0, 0, 0]) (example_conv [0, 0, 0, 0]), kNone)"
proof -
  let ?p = "[1, 0, 0, 0, 0, 0, 0, 0 :: int64]"
  let ?n = "example_pad ?p"
  let ?g = "example_graph ?n (example_conv [0, 0, 0, 0])"
  have m: "SatisfyCondition ?g 0 = Inr True"
    by (simp add: match_defs host_defs example_defs)
  have node: "GetNode ?g 0 = Some ?n"
    by (simp add: host_defs example_defs)
  have pads: "resolve_pads_values ?g ?n = Inr ?p"
    by (simp add: resolve_pads_values_def map_at_def example_defs)
  have bad: "\<exists>i \<in> {0, 1, unat ((of_nat (length ?p) :: uint32) div 2),
                      unat ((of_nat (length ?p) :: uint32) div 2) + 1}.
                 i < length ?p \<and> ?p ! i \<noteq> 0"
    by simp
  from Apply_rejects_non_spatial_padding [OF node pads bad, of kNone] m show ?thesis
    by simp
qed

text \<open>
  Claim C5. For a chain Pad, Cast, Conv on which \<open>Apply\<close> succeeds, the graph afterwards holds
  the chain Cast, Conv without the pad node: the cast is still followed by the convolution,
  its input 0 is the pad node's data input, and the shape descriptor of its output equals
  the shape of the pad node's data input, which is known.
\<close>

theorem Apply_cast_chain:
  assumes node: "GetNode graph pad_idx = Some pad_node"
    and pads: "resolve_pads_values graph pad_node = Inr pads_values"
    and spatial: "non_spatial_padding pads_values (of_nat (length pads_values)) = Inr False"
    and nonneg: "\<not> negative_padding pads_values"
    and ap: "Apply graph pad_idx rule_effect = Inr (graph', rule_effect')"
    and pad: "OpType pad_node = ''Pad''"
    and cast: "OutputNodesBegin graph pad_idx = Inr cast_idx" "GetNode graph cast_idx = Some cast"
      "OpType cast = ''Cast''"
    and conv: "OutputNodesBegin graph cast_idx = Inr conv_idx" "GetNode graph conv_idx = Some conv"
      "OpType conv = ''Conv''"
  shows "GetNode graph' pad_idx = None \<and>
         (\<exists>cast' conv'.
            GetNode graph' cast_idx = Some cast' \<and> OpType cast' = ''Cast'' \<and>
            OutputNodesBegin graph' cast_idx = Inr conv_idx \<and>
            GetNode graph' conv_idx = Some conv' \<and> OpType conv' = ''Conv'' \<and>
            InputDefs cast' \<noteq> [] \<and> InputDefs pad_node \<noteq> [] \<and>
            InputDefs cast' ! 0 = InputDefs pad_node ! 0 \<and>
            OutputDefs cast' \<noteq> [] \<and>
            NodeArgShape graph (InputDefs pad_node ! 0) \<noteq> None \<and>
            NodeArgShape graph' (OutputDefs cast' ! 0) = NodeArgShape graph (InputDefs pad_node ! 0))"
proof -
  from Apply_Inr [OF node pads spatial nonneg ap]
  have f: "fuse graph pad_idx pad_node pads_values (of_nat (length pads_values)) = Inr graph'"
    by simp
  from node cast pad have cp: "cast_idx \<noteq> pad_idx" by auto
  from node conv pad have vp: "conv_idx \<noteq> pad_idx" by auto
  from cast conv have cv: "conv_idx \<noteq> cast_idx" by auto
  have walk: "if OpType cast = ''Cast'' then OutputNodesBegin graph cast_idx = Inr conv_idx
               else conv_idx = cast_idx"
    using cast(3) conv(1) by simp
  from fuse_result [OF f cast(1,2) walk conv(2)] obtain target' child' where
    up: "UpdatePaddingAttribute conv pads_values (of_nat (length pads_values)) = Inr target'"
    and ne: "InputDefs pad_node \<noteq> []"
    and c': "child' = (if cast_idx = conv_idx then target' else cast)"
    and cne': "InputDefs child' \<noteq> []"
    and sh': "OpType cast = ''Cast'' \<longrightarrow> OutputDefs cast \<noteq> [] \<and>
          NodeArgShape graph (InputDefs pad_node ! 0) \<noteq> None"
    and g2: "graph' = graph\<lparr>Nodes := ((Nodes graph)(conv_idx \<mapsto> target',
                    cast_idx \<mapsto> child'\<lparr>InputDefs := (InputDefs child')[0 := InputDefs pad_node ! 0]\<rparr>))
                    (pad_idx := None),
                 Edges := filter (\<lambda>e. dst_node e \<noteq> pad_idx)
                            (filter (\<lambda>e. src_node e \<noteq> pad_idx) (Edges graph)),
                 NodeArgShape :=
                   (if OpType cast = ''Cast''
                    then (NodeArgShape graph)(OutputDefs cast ! 0 :=
                            NodeArgShape graph (InputDefs pad_node ! 0))
                    else NodeArgShape graph)\<rparr>"
    by (elim exE conjE) (rule that, assumption+)
  from c' cv have c: "child' = cast" by simp
  from cne' c have cne: "InputDefs cast \<noteq> []" by simp
  from sh' cast(3) have sh: "OutputDefs cast \<noteq> []" "NodeArgShape graph (InputDefs pad_node ! 0) \<noteq> None"
    by simp_all
  note g' = g2 [unfolded c]
  from UpdatePaddingAttribute_Inr [OF up] have ot: "OpType target' = ''Conv''"
    using conv(3) by auto
  have e: "Edges graph' = filter (\<lambda>e. dst_node e \<noteq> pad_idx)
                            (filter (\<lambda>e. src_node e \<noteq> pad_idx) (Edges graph))"
    by (simp add: g')
  have 1: "GetNode graph' pad_idx = None"
    by (simp add: g' GetNode_def)
  have 2: "GetNode graph' cast_idx =
             Some (cast\<lparr>InputDefs := (InputDefs cast)[0 := InputDefs pad_node ! 0]\<rparr>)"
    using cp by (simp add: g' GetNode_def)
  have 3: "GetNode graph' conv_idx = Some target'"
    using vp cv by (simp add: g' GetNode_def)
  have 4: "OutputNodesBegin graph' cast_idx = Inr conv_idx"
    using conv(1) cp vp e by (rule OutputNodesBegin_filter)
  have 5: "NodeArgShape graph' (OutputDefs cast ! 0) = NodeArgShape graph (InputDefs pad_node ! 0)"
    by (simp add: g' cast(3))
  from 1 2 3 4 5 ot cast(3) ne cne sh show ?thesis by simp
qed

text \<open>
  Pad, Cast, Conv: the output of the cast takes the shape of \<open>X\<close>.
\<close>

theorem Apply_cast_chain_witness:
  "\<exists>graph' rule_effect'.
     Apply (example_cast_graph (Some example_shape)) 0 kNone
       = Inr (graph', rule_effect') \<and>
     GetNode graph' 0 = None \<and>
     OutputNodesBegin graph' 1 = Inr 2 \<and>
     (\<exists>cast'. GetNode graph' 1 = Some cast' \<and> OpType cast' = ''Cast'' \<and>
         InputDefs cast' ! 0 = ''X'') \<and>
     NodeArgShape graph' ''casted'' = Some example_shape"
proof -
  let ?p = "[0, 0, 1, 1, 0, 0, 1, 1 :: int64]"
  let ?n = "example_pad13"
  let ?g = "example_cast_graph (Some example_shape)"
  let ?c = "(example_conv [0, 0, 0, 0])\<lparr>InputDefs := [''casted'', ''W'']\<rparr>"
  have node: "GetNode ?g 0 = Some ?n"
    by (simp add: host_defs example_defs)
  have pads: "resolve_pads_values ?g ?n = Inr ?p"
    by (simp add: resolve_pads_values_def host_defs example_defs)
  have spatial: "non_spatial_padding ?p (of_nat (length ?p)) = Inr False"
    by (simp add: non_spatial_padding_def)
  have nonneg: "\<not> negative_padding ?p"
    by (simp add: negative_padding_def)
  have pad: "OpType ?n = ''Pad''"
    and cast: "OutputNodesBegin ?g 0 = Inr 1" "GetNode ?g 1 = Some example_cast"
      "OpType example_cast = ''Cast''"
    and conv: "OutputNodesBegin ?g 1 = Inr 2" "GetNode ?g 2 = Some ?c" "OpType ?c = ''Conv''"
    by (simp_all add: host_defs example_defs)
  obtain graph' rule_effect' where ap: "Apply ?g 0 kNone = Inr (graph', rule_effect')"
    by (simp add: apply_defs host_defs example_defs)
  have x: "InputDefs ?n ! 0 = ''X''"
    "NodeArgShape ?g ''X'' = Some example_shape"
    by (simp_all add: example_cast_graph_def example_pad13_def)
  from Apply_cast_chain [OF node pads spatial nonneg ap pad cast conv] obtain cast' where
    r: "GetNode graph' 0 = None" "GetNode graph' 1 = Some cast'" "OpType cast' = ''Cast''"
       "OutputNodesBegin graph' 1 = Inr 2" "InputDefs cast' ! 0 = InputDefs ?n ! 0"
       "NodeArgShape graph' (OutputDefs cast' ! 0) = NodeArgShape ?g (InputDefs ?n ! 0)"
    by blast
  have o: "OutputDefs cast' = [''casted'']"
    using ap r(2) by (auto simp: apply_defs host_defs example_defs)
  from r o x ap show ?thesis by auto
qed

text \<open>
  Claim C6. For a pad node of version 11 or later (which declares its pad-value input), the
  match predicate returns false unless input 1 resolves to a constant tensor and, when a third
  input is present, that input resolves to a constant tensor whose every raw byte is zero;
  for a pad node of an earlier version it returns false when a \<open>value\<close> attribute is present
  and differs from \<open>0.0\<close>.
\<close>

theorem SatisfyCondition_constant_inputs:
  assumes "GetNode graph idx = Some node"
    and "(SinceVersion node \<ge> 11 \<and> 2 \<le> length (InputDefs node) \<and>
          \<not> (NodeArgIsConstant graph (InputDefs node ! 1) \<and>
             (length (InputDefs node) > 2 \<longrightarrow>
                (\<exists>init. GetConstantInitializer graph (InputDefs node ! 2) = Some init \<and>
                        (\<forall>b \<in> set (DataAsByteSpan init). b = 0))))) \<or>
         (SinceVersion node < 11 \<and>
          (\<exists>a. Attributes node ''value'' = Some a \<and> float_ne_zero (attr_f a)))"
  shows "SatisfyCondition graph idx = Inr False"
proof -
  have c: "constant_inputs_ok graph node = Inr False"
    using assms(2)
    by (auto simp: constant_inputs_ok_def vector_at_def NodeArgIsConstant_def list_ex_iff)
  show ?thesis
    using assms(1) by (simp add: SatisfyCondition_def c)
qed

text \<open>
  A pad node of opset 2 with fill value \<open>1.0\<close> is rejected.
\<close>

theorem SatisfyCondition_constant_inputs_witness:
  "GetNode (example_graph (AddAttribute (example_pad [0, 0, 1, 1, 0, 0, 1, 1]) ''value''
                (AttrFloat 0x3F800000)) (example_conv [0, 0, 0, 0])) 0 =
     Some (AddAttribute (example_pad [0, 0, 1, 1, 0, 0, 1, 1]) ''value'' (AttrFloat 0x3F800000)) \<and>
   float_ne_zero 0x3F800000 \<and>
   SatisfyCondition (example_graph (AddAttribute (example_pad [0, 0, 1, 1, 0, 0, 1, 1]) ''value''
                (AttrFloat 0x3F800000)) (example_conv [0, 0, 0, 0])) 0 = Inr False"
proof -
  let ?n = "AddAttribute (example_pad [0, 0, 1, 1, 0, 0, 1, 1]) ''value'' (AttrFloat 0x3F800000)"
  let ?g = "example_graph ?n (example_conv [0, 0, 0, 0])"
  have h1: "GetNode ?g 0 = Some ?n"
    by (simp add: host_defs example_defs)
  have f: "float_ne_zero 0x3F800000"
    by (simp add: float_ne_zero_def)
  have h2: "(SinceVersion ?n \<ge> 11 \<and> 2 \<le> length (InputDefs ?n) \<and>
          \<not> (NodeArgIsConstant ?g (InputDefs ?n ! 1) \<and>
             (length (InputDefs ?n) > 2 \<longrightarrow>
                (\<exists>init. GetConstantInitializer ?g (InputDefs ?n ! 2) = Some init \<and>
                        (\<forall>b \<in> set (DataAsByteSpan init). b = 0))))) \<or>
         (SinceVersion ?n < 11 \<and>
          (\<exists>a. Attributes ?n ''value'' = Some a \<and> float_ne_zero (attr_f a)))"
    using f by (simp add: host_defs example_defs)
  from SatisfyCondition_constant_inputs [OF h1 h2] h1 f show ?thesis by simp
qed

text \<open>
  Claim C7. When the match predicate returns true on a graph whose nodes each declare an
  output, the pad node has a first consumer; if that consumer is a Cast of version 1, 6, 9 or
  13, the cast has exactly one outgoing edge and is not a graph output, and the terminal check
  was applied to the cast's consumer, otherwise to the pad node's consumer itself. The node
  the terminal check accepted is a Conv (1, 11), an AveragePool (7, 10, 11, 19) or a MaxPool
  (1, 8, 10, 11, 12), declares exactly one output, and its \<open>auto_pad\<close> attribute is absent or
  equal to \<open>NOTSET\<close>.
\<close>

theorem SatisfyCondition_consumer_walk:
  assumes "SatisfyCondition graph idx = Inr True"
    and "\<forall>i n. GetNode graph i = Some n \<longrightarrow> OutputDefs n \<noteq> []"
  shows "\<exists>child_idx child t_idx t.
           OutputNodesBegin graph idx = Inr child_idx \<and> GetNode graph child_idx = Some child \<and>
           (if IsSupportedOptypeVersionAndDomain child ''Cast'' [1, 6, 9, 13]
            then GetOutputEdgesCount graph child_idx = 1 \<and>
                 \<not> NodeProducesGraphOutput graph child \<and>
                 OutputNodesBegin graph child_idx = Inr t_idx
            else t_idx = child_idx) \<and>
           GetNode graph t_idx = Some t \<and> VerifyNotCastChild t \<and>
           ((OpType t = ''Conv'' \<and> SinceVersion t \<in> {1, 11}) \<or>
            (OpType t = ''AveragePool'' \<and> SinceVersion t \<in> {7, 10, 11, 19}) \<or>
            (OpType t = ''MaxPool'' \<and> SinceVersion t \<in> {1, 8, 10, 11, 12})) \<and>
           length (OutputDefs t) = 1 \<and>
           (Attributes t ''auto_pad'' = None \<or>
            (\<exists>a. Attributes t ''auto_pad'' = Some a \<and> attr_s a = ''NOTSET''))"
proof -
  from assms(1) have "consumer_ok graph idx = Inr True"
    using SatisfyCondition_True by blast
  then obtain child_idx child t_idx t where
    w: "OutputNodesBegin graph idx = Inr child_idx" "GetNode graph child_idx = Some child"
      "if IsSupportedOptypeVersionAndDomain child ''Cast'' [1, 6, 9, 13]
       then GetOutputEdgesCount graph child_idx = 1 \<and>
            \<not> NodeProducesGraphOutput graph child \<and>
            OutputNodesBegin graph child_idx = Inr t_idx
       else t_idx = child_idx"
      "GetNode graph t_idx = Some t" "VerifyNotCastChild t"
    using consumer_ok_True by blast
  note p = VerifyNotCastChild_True [OF w(5)]
  from assms(2) w(4) have "OutputDefs t \<noteq> []" by blast
  with p have one: "length (OutputDefs t) = 1"
    by (cases "OutputDefs t") auto
  from p have ap: "Attributes t ''auto_pad'' = None \<or>
            (\<exists>a. Attributes t ''auto_pad'' = Some a \<and> attr_s a = ''NOTSET'')"
    by (cases "Attributes t ''auto_pad''") auto
  from w p one ap show ?thesis by blast
qed

text \<open>
  The chain Pad, Cast, Conv is accepted, and the accepted terminal consumer is the
  convolution.
\<close>

theorem SatisfyCondition_consumer_walk_witness:
  "SatisfyCondition (example_cast_graph (Some example_shape)) 0 = Inr True \<and>
   (\<exists>child t. GetNode (example_cast_graph (Some example_shape)) 1 = Some child \<and>
       IsSupportedOptypeVersionAndDomain child ''Cast'' [1, 6, 9, 13] \<and>
       GetNode (example_cast_graph (Some example_shape)) 2 = Some t \<and> OpType t = ''Conv'' \<and>
       length (OutputDefs t) = 1 \<and> Attributes t ''auto_pad'' = None)"
proof -
  let ?g = "example_cast_graph (Some example_shape)"
  have h1: "SatisfyCondition ?g 0 = Inr True"
    by (simp add: match_defs host_defs example_defs)
  have h2: "\<forall>i n. GetNode ?g i = Some n \<longrightarrow> OutputDefs n \<noteq> []"
    by (auto simp: host_defs example_defs split: if_splits)
  have b1: "OutputNodesBegin ?g 0 = Inr 1" and b2: "OutputNodesBegin ?g 1 = Inr 2"
    and c: "GetNode ?g 1 = Some example_cast"
    and i: "IsSupportedOptypeVersionAndDomain example_cast ''Cast'' [1, 6, 9, 13]"
    by (simp_all add: host_defs example_defs)
  from SatisfyCondition_consumer_walk [OF h1 h2] obtain child_idx child t_idx t where
    w: "OutputNodesBegin ?g 0 = Inr child_idx" "GetNode ?g child_idx = Some child"
      "if IsSupportedOptypeVersionAndDomain child ''Cast'' [1, 6, 9, 13]
       then GetOutputEdgesCount ?g child_idx = 1 \<and>
            \<not> NodeProducesGraphOutput ?g child \<and>
            OutputNodesBegin ?g child_idx = Inr t_idx
       else t_idx = child_idx"
      "GetNode ?g t_idx = Some t" "length (OutputDefs t) = 1"
    by blast
  from w(1) b1 have 1: "child_idx = 1" by simp
  from w(2) c 1 have 2: "child = example_cast" by simp
  from w(3) 1 2 i b2 have 3: "t_idx = 2" by simp
  have 4: "OpType t = ''Conv''" "Attributes t ''auto_pad'' = None"
    using w(4) unfolding 3 by (auto simp: host_defs example_defs)
  from h1 c i w(4,5) 3 4 show ?thesis by blast
qed

text \<open>
  Claim C8. When the terminal consumer (the pad node's consumer, or the consumer of the cast
  in between) is an AveragePool whose \<open>pads\<close> attribute has a nonzero entry and whose
  \<open>count_include_pad\<close> attribute is present with value 0, the match predicate returns false.
\<close>

theorem SatisfyCondition_AveragePool_excluded_pad:
  assumes node: "GetNode graph idx = Some node"
    and inputs: "SinceVersion node \<ge> 11 \<longrightarrow> 2 \<le> length (InputDefs node)"
    and child: "OutputNodesBegin graph idx = Inr child_idx" "GetNode graph child_idx = Some child"
    and walk: "if IsSupportedOptypeVersionAndDomain child ''Cast'' [1, 6, 9, 13]
               then OutputNodesBegin graph child_idx = Inr t_idx else t_idx = child_idx"
    and t: "GetNode graph t_idx = Some t"
    and avg: "OpType t = ''AveragePool''"
      "Attributes t ''pads'' = Some p" "\<exists>v \<in> set (attr_ints p). v \<noteq> 0"
      "Attributes t ''count_include_pad'' = Some c" "attr_i c = 0"
  shows "SatisfyCondition graph idx = Inr False"
proof -
  have nv: "\<not> VerifyNotCastChild t"
    using avg by (rule VerifyNotCastChild_AveragePool)
  have co: "consumer_ok graph idx = Inr False"
    using child walk t nv by (auto simp: consumer_ok_def)
  obtain b where b: "constant_inputs_ok graph node = Inr b"
    using constant_inputs_ok_total [OF inputs] by blast
  show ?thesis
    using node by (simp add: SatisfyCondition_def b co)
qed

text \<open>
  An average pool with \<open>pads = [1, 1, 1, 1]\<close> and \<open>count_include_pad = 0\<close> is rejected.
\<close>

theorem SatisfyCondition_AveragePool_excluded_pad_witness:
  "SatisfyCondition (example_graph (example_pad [0, 0, 1, 1, 0, 0, 1, 1])
                       (example_average_pool [1, 1, 1, 1] 0)) 0 = Inr False"
proof -
  let ?n = "example_pad [0, 0, 1, 1, 0, 0, 1, 1]"
  let ?t = "example_average_pool [1, 1, 1, 1] 0"
  let ?g = "example_graph ?n ?t"
  have node: "GetNode ?g 0 = Some ?n"
    and inputs: "SinceVersion ?n \<ge> 11 \<longrightarrow> 2 \<le> length (InputDefs ?n)"
    and child: "OutputNodesBegin ?g 0 = Inr 1" "GetNode ?g 1 = Some ?t"
    and walk: "if IsSupportedOptypeVersionAndDomain ?t ''Cast'' [1, 6, 9, 13]
               then OutputNodesBegin ?g 1 = Inr 1 else 1 = (1 :: nat)"
    and avg: "OpType ?t = ''AveragePool''"
      "Attributes ?t ''pads'' = Some (AttrInts [1, 1, 1, 1])"
      "\<exists>v \<in> set (attr_ints (AttrInts [1, 1, 1, 1])). v \<noteq> 0"
      "Attributes ?t ''count_include_pad'' = Some (AttrInt 0)" "attr_i (AttrInt 0) = 0"
    by (simp_all add: host_defs example_defs)
  show ?thesis
    by (rule SatisfyCondition_AveragePool_excluded_pad [OF node inputs child walk child(2) avg])
qed

text \<open>
  Claim C9. For every candidate node, the match predicate returns false unless the node is
  a Pad operator of version 1, 2, 11, 13, 18 or 19, has exactly one outgoing edge, has at most
  three declared inputs, does not produce a graph output, and its \<open>mode\<close> attribute, when
  present, equals \<open>constant\<close>.
\<close>

theorem SatisfyCondition_candidate:
  assumes "GetNode graph idx = Some node"
    and "\<not> (OpType node = ''Pad'' \<and> SinceVersion node \<in> {1, 2, 11, 13, 18, 19} \<and>
             GetOutputEdgesCount graph idx = 1 \<and>
             length (InputDefs node) \<le> 3 \<and>
             \<not> NodeProducesGraphOutput graph node \<and>
             (\<forall>a. Attributes node ''mode'' = Some a \<longrightarrow> attr_s a = ''constant''))"
  shows "SatisfyCondition graph idx = Inr False"
  using assms
  by (auto simp: SatisfyCondition_def IsSupportedOptypeVersionAndDomain_def split: option.splits)

text \<open>
  A pad node in \<open>reflect\<close> mode is rejected.
\<close>

theorem SatisfyCondition_candidate_witness:
  "GetNode (example_graph (AddAttribute (example_pad [0, 0, 1, 1, 0, 0, 1, 1]) ''mode''
                (AttrString ''reflect'')) (example_conv [0, 0, 0, 0])) 0 =
     Some (AddAttribute (example_pad [0, 0, 1, 1, 0, 0, 1, 1]) ''mode'' (AttrString ''reflect'')) \<and>
   SatisfyCondition (example_graph (AddAttribute (example_pad [0, 0, 1, 1, 0, 0, 1, 1]) ''mode''
                (AttrString ''reflect'')) (example_conv [0, 0, 0, 0])) 0 = Inr False"
proof -
  let ?n = "AddAttribute (example_pad [0, 0, 1, 1, 0, 0, 1, 1]) ''mode'' (AttrString ''reflect'')"
  let ?g = "example_graph ?n (example_conv [0, 0, 0, 0])"
  have h1: "GetNode ?g 0 = Some ?n"
    by (simp add: host_defs example_defs)
  have h2: "\<not> (OpType ?n = ''Pad'' \<and> SinceVersion ?n \<in> {1, 2, 11, 13, 18, 19} \<and>
             GetOutputEdgesCount ?g 0 = 1 \<and>
             length (InputDefs ?n) \<le> 3 \<and>
             \<not> NodeProducesGraphOutput ?g ?n \<and>
             (\<forall>a. Attributes ?n ''mode'' = Some a \<longrightarrow> attr_s a = ''constant''))"
    by (simp add: host_defs example_defs)
  from SatisfyCondition_candidate [OF h1 h2] h1 show ?thesis by simp
qed

text \<open>
  Claim C10 does not hold as stated: its three preconditions do not make \<open>Apply\<close> total. On
  the chain Pad, Cast, Conv the match predicate holds, the pad sequence has length \<open>2 * 4\<close>
  and the convolution has \<open>2 * (4 - 2)\<close> \<open>pads\<close> entries; when the pad node's data input
  has no shape descriptor, line 184 dereferences a null pointer.
\<close>

theorem Apply_cast_unknown_shape:
  "SatisfyCondition (example_cast_graph None) 0 = Inr True \<and>
   GetNode (example_cast_graph None) 0 = Some example_pad13 \<and>
   pad_sequence (example_cast_graph None) example_pad13 = [0, 0, 1, 1, 0, 0, 1, 1] \<and>
   OutputNodesBegin (example_cast_graph None) 0 = Inr 1 \<and>
   GetNode (example_cast_graph None) 1 = Some example_cast \<and>
   OpType example_cast = ''Cast'' \<and>
   OutputNodesBegin (example_cast_graph None) 1 = Inr 2 \<and>
   GetNode (example_cast_graph None) 2 =
     Some ((example_conv [0, 0, 0, 0])\<lparr>InputDefs := [''casted'', ''W'']\<rparr>) \<and>
   Attributes ((example_conv [0, 0, 0, 0])\<lparr>InputDefs := [''casted'', ''W'']\<rparr>) ''pads'' =
     Some (AttrInts [0, 0, 0, 0]) \<and>
   Apply (example_cast_graph None) 0 kNone = Inl NullDereference"
  by (simp add: match_defs host_defs example_defs apply_defs pad_sequence_def)

text \<open>
  Claim C10, as the code has it. \<open>Apply\<close> checks neither presence, nullity nor length. If
  the match predicate holds on the same graph, the resolved pad sequence has length
  \<open>2 * rank\<close> with \<open>2 \<le> rank\<close>, and the target's existing \<open>pads\<close>, when non-empty, has at
  least \<open>2 * (rank - 2)\<close> entries, then the lookup of the pad values succeeds, the four guard
  reads are in bounds, and every read and write of \<open>UpdatePaddingAttribute\<close> is in bounds. If
  moreover the pad node and its consumer declare input 0 and, for a cast consumer, the cast
  declares an output and the pad node's data input has a shape descriptor, \<open>Apply\<close> returns
  normally. The two length preconditions do not follow from the match predicate: it holds on
  a pad node of rank 1, and on a pad node of rank 4 in front of a convolution with two
  \<open>pads\<close> entries, and \<open>Apply\<close> indexes out of bounds on both.
\<close>

theorem Apply_unchecked_accesses:
  "(\<forall>graph pad_idx pad_node rank child_idx child target_idx target.
      SatisfyCondition graph pad_idx = Inr True \<and>
      GetNode graph pad_idx = Some pad_node \<and>
      length (pad_sequence graph pad_node) = 2 * rank \<and> 2 \<le> rank \<and>
      OutputNodesBegin graph pad_idx = Inr child_idx \<and>
      GetNode graph child_idx = Some child \<and>
      (if OpType child = ''Cast'' then OutputNodesBegin graph child_idx = Inr target_idx
       else target_idx = child_idx) \<and>
      GetNode graph target_idx = Some target \<and>
      (\<forall>a. Attributes target ''pads'' = Some a \<longrightarrow> attr_ints a \<noteq> [] \<longrightarrow>
           2 * (rank - 2) \<le> length (attr_ints a))
      \<longrightarrow>
      resolve_pads_values graph pad_node = Inr (pad_sequence graph pad_node) \<and>
      (\<exists>b. non_spatial_padding (pad_sequence graph pad_node)
              (of_nat (length (pad_sequence graph pad_node))) = Inr b) \<and>
      (\<exists>target'. UpdatePaddingAttribute target (pad_sequence graph pad_node)
              (of_nat (length (pad_sequence graph pad_node))) = Inr target') \<and>
      (InputDefs pad_node \<noteq> [] \<and> InputDefs child \<noteq> [] \<and>
       (OpType child = ''Cast'' \<longrightarrow>
          OutputDefs child \<noteq> [] \<and> NodeArgShape graph (InputDefs pad_node ! 0) \<noteq> None)
       \<longrightarrow> (\<forall>rule_effect. \<exists>graph' rule_effect'.
              Apply graph pad_idx rule_effect = Inr (graph', rule_effect')))) \<and>
   (SatisfyCondition (example_graph (example_pad [0, 0]) (example_conv [0, 0, 0, 0])) 0 = Inr True \<and>
    Apply (example_graph (example_pad [0, 0]) (example_conv [0, 0, 0, 0])) 0 kNone
      = Inl IndexOutOfBounds) \<and>
   (SatisfyCondition (example_graph (example_pad [0, 0, 1, 1, 0, 0, 1, 1]) (example_conv [0, 0])) 0
      = Inr True \<and>
    Apply (example_graph (example_pad [0, 0, 1, 1, 0, 0, 1, 1]) (example_conv [0, 0])) 0 kNone
      = Inl IndexOutOfBounds)"
proof (intro conjI allI impI)
  fix graph pad_idx pad_node rank child_idx child target_idx target
  assume h: "SatisfyCondition graph pad_idx = Inr True \<and>
      GetNode graph pad_idx = Some pad_node \<and>
      length (pad_sequence graph pad_node) = 2 * rank \<and> 2 \<le> rank \<and>
      OutputNodesBegin graph pad_idx = Inr child_idx \<and>
      GetNode graph child_idx = Some child \<and>
      (if OpType child = ''Cast'' then OutputNodesBegin graph child_idx = Inr target_idx
       else target_idx = child_idx) \<and>
      GetNode graph target_idx = Some target \<and>
      (\<forall>a. Attributes target ''pads'' = Some a \<longrightarrow> attr_ints a \<noteq> [] \<longrightarrow>
           2 * (rank - 2) \<le> length (attr_ints a))"
  then have m: "SatisfyCondition graph pad_idx = Inr True"
    and node: "GetNode graph pad_idx = Some pad_node"
    and len: "length (pad_sequence graph pad_node) = 2 * rank" and r2: "2 \<le> rank"
    and ci: "OutputNodesBegin graph pad_idx = Inr child_idx"
    and ch: "GetNode graph child_idx = Some child"
    and walk: "if OpType child = ''Cast'' then OutputNodesBegin graph child_idx = Inr target_idx
               else target_idx = child_idx"
    and tg: "GetNode graph target_idx = Some target"
    and long: "\<forall>a. Attributes target ''pads'' = Some a \<longrightarrow> attr_ints a \<noteq> [] \<longrightarrow>
                 2 * (rank - 2) \<le> length (attr_ints a)"
    by blast+
  note t = Apply_accesses_total [OF m node len r2 long]
  from t show "resolve_pads_values graph pad_node = Inr (pad_sequence graph pad_node)"
    by blast
  from t show "\<exists>b. non_spatial_padding (pad_sequence graph pad_node)
              (of_nat (length (pad_sequence graph pad_node))) = Inr b"
    by blast
  from t show "\<exists>target'. UpdatePaddingAttribute target (pad_sequence graph pad_node)
              (of_nat (length (pad_sequence graph pad_node))) = Inr target'"
    by blast
  fix rule_effect
  assume e: "InputDefs pad_node \<noteq> [] \<and> InputDefs child \<noteq> [] \<and>
       (OpType child = ''Cast'' \<longrightarrow>
          OutputDefs child \<noteq> [] \<and> NodeArgShape graph (InputDefs pad_node ! 0) \<noteq> None)"
  then have pin: "InputDefs pad_node \<noteq> []" and cin: "InputDefs child \<noteq> []"
    and cast: "OpType child = ''Cast'' \<longrightarrow>
          OutputDefs child \<noteq> [] \<and> NodeArgShape graph (InputDefs pad_node ! 0) \<noteq> None"
    by blast+
  show "\<exists>graph' rule_effect'. Apply graph pad_idx rule_effect = Inr (graph', rule_effect')"
    by (rule Apply_total [OF m node len r2 ci ch walk tg long pin cin cast])
next
  show "SatisfyCondition (example_graph (example_pad [0, 0]) (example_conv [0, 0, 0, 0])) 0 = Inr True"
    by (simp add: match_defs host_defs example_defs)
next
  show "Apply (example_graph (example_pad [0, 0]) (example_conv [0, 0, 0, 0])) 0 kNone
      = Inl IndexOutOfBounds"
    by (simp add: apply_defs host_defs example_defs)
next
  show "SatisfyCondition (example_graph (example_pad [0, 0, 1, 1, 0, 0, 1, 1]) (example_conv [0, 0])) 0
      = Inr True"
    by (simp add: match_defs host_defs example_defs)
next
  show "Apply (example_graph (example_pad [0, 0, 1, 1, 0, 0, 1, 1]) (example_conv [0, 0])) 0 kNone
      = Inl IndexOutOfBounds"
    by (simp add: apply_defs host_defs example_defs)
qed

text \<open>
  The preconditions hold on the chain Pad, Cast, Conv whose data input has a shape, and
  \<open>Apply\<close> returns normally there.
\<close>

theorem Apply_unchecked_accesses_witness:
  "SatisfyCondition (example_cast_graph (Some example_shape)) 0 = Inr True \<and>
   length (pad_sequence (example_cast_graph (Some example_shape)) example_pad13) = 2 * 4 \<and>
   NodeArgShape (example_cast_graph (Some example_shape)) (InputDefs example_pad13 ! 0) \<noteq> None \<and>
   resolve_pads_values (example_cast_graph (Some example_shape)) example_pad13
     = Inr [0, 0, 1, 1, 0, 0, 1, 1] \<and>
   (\<exists>graph' rule_effect'.
      Apply (example_cast_graph (Some example_shape)) 0 kNone = Inr (graph', rule_effect'))"
proof -
  let ?p = "[0, 0, 1, 1, 0, 0, 1, 1 :: int64]"
  let ?n = "example_pad13"
  let ?c = "example_cast"
  let ?t = "(example_conv [0, 0, 0, 0])\<lparr>InputDefs := [''casted'', ''W'']\<rparr>"
  let ?g = "example_cast_graph (Some example_shape)"
  have m: "SatisfyCondition ?g 0 = Inr True"
    by (simp add: match_defs host_defs example_defs)
  have s: "pad_sequence ?g ?n = ?p"
    by (simp add: pad_sequence_def host_defs example_defs)
  have sh: "NodeArgShape ?g (InputDefs ?n ! 0) \<noteq> None"
    by (simp add: example_defs)
  have h: "SatisfyCondition ?g 0 = Inr True \<and>
      GetNode ?g 0 = Some ?n \<and>
      length (pad_sequence ?g ?n) = 2 * 4 \<and> 2 \<le> (4 :: nat) \<and>
      OutputNodesBegin ?g 0 = Inr 1 \<and>
      GetNode ?g 1 = Some ?c \<and>
      (if OpType ?c = ''Cast'' then OutputNodesBegin ?g 1 = Inr 2 else 2 = (1 :: nat)) \<and>
      GetNode ?g 2 = Some ?t \<and>
      (\<forall>a. Attributes ?t ''pads'' = Some a \<longrightarrow> attr_ints a \<noteq> [] \<longrightarrow>
           2 * (4 - 2) \<le> length (attr_ints a))"
    unfolding s using m by (auto simp: host_defs example_defs)
  have e: "InputDefs ?n \<noteq> [] \<and> InputDefs ?c \<noteq> [] \<and>
       (OpType ?c = ''Cast'' \<longrightarrow>
          OutputDefs ?c \<noteq> [] \<and> NodeArgShape ?g (InputDefs ?n ! 0) \<noteq> None)"
    by (simp add: example_defs)
  from Apply_unchecked_accesses have "\<forall>graph pad_idx pad_node rank child_idx child target_idx target.
      SatisfyCondition graph pad_idx = Inr True \<and>
      GetNode graph pad_idx = Some pad_node \<and>
      length (pad_sequence graph pad_node) = 2 * rank \<and> 2 \<le> rank \<and>
      OutputNodesBegin graph pad_idx = Inr child_idx \<and>
      GetNode graph child_idx = Some child \<and>
      (if OpType child = ''Cast'' then OutputNodesBegin graph child_idx = Inr target_idx
       else target_idx = child_idx) \<and>
      GetNode graph target_idx = Some target \<and>
      (\<forall>a. Attributes target ''pads'' = Some a \<longrightarrow> attr_ints a \<noteq> [] \<longrightarrow>
           2 * (rank - 2) \<le> length (attr_ints a))
      \<longrightarrow>
      resolve_pads_values graph pad_node = Inr (pad_sequence graph pad_node) \<and>
      (\<exists>b. non_spatial_padding (pad_sequence graph pad_node)
              (of_nat (length (pad_sequence graph pad_node))) = Inr b) \<and>
      (\<exists>target'. UpdatePaddingAttribute target (pad_sequence graph pad_node)
              (of_nat (length (pad_sequence graph pad_node))) = Inr target') \<and>
      (InputDefs pad_node \<noteq> [] \<and> InputDefs child \<noteq> [] \<and>
       (OpType child = ''Cast'' \<longrightarrow>
          OutputDefs child \<noteq> [] \<and> NodeArgShape graph (InputDefs pad_node ! 0) \<noteq> None)
       \<longrightarrow> (\<forall>rule_effect. \<exists>graph' rule_effect'.
              Apply graph pad_idx rule_effect = Inr (graph', rule_effect')))"
    by (rule conjunct1)
  from this [rule_format, of ?g 0 ?n 4 1 ?c 2 ?t, OF h]
  have r: "resolve_pads_values ?g ?n = Inr (pad_sequence ?g ?n)"
    and a: "InputDefs ?n \<noteq> [] \<and> InputDefs ?c \<noteq> [] \<and>
       (OpType ?c = ''Cast'' \<longrightarrow>
          OutputDefs ?c \<noteq> [] \<and> NodeArgShape ?g (InputDefs ?n ! 0) \<noteq> None)
       \<Longrightarrow> \<exists>graph' rule_effect'. Apply ?g 0 kNone = Inr (graph', rule_effect')"
    by blast+
  from a [OF e] r m sh show ?thesis
    unfolding s by simp
qed

end
